theory Spec2Isabelle
  imports Complex_Main "HOL-Library.Sublist"
begin

section \<open>Values shared by the gateway and the tool handler\<close>

text \<open>
  JSON data as the program holds it after \<^verbatim>\<open>express.json()\<close> or axios has parsed it.
  An object keeps its properties in insertion order, so it is an association list.
  Numbers arrive through JSON, hence are finite; a finite double is a rational.
\<close>

datatype json =
    JNull
  | JBool bool
  | JNum rat
  | JStr string
  | JArr "json list"
  | JObj "(string \<times> json) list"

text \<open>
  A thrown value. The two catch blocks of \<^verbatim>\<open>src/index.ts\<close> and the one of
  \<^verbatim>\<open>services/searchapi.ts\<close> all read it with
  \<^verbatim>\<open>error instanceof Error ? error.message : String(error)\<close>.
\<close>

datatype thrown =
    ErrorObj string   \<comment> \<open>an \<^verbatim>\<open>Error\<close> (or subclass) with this \<^verbatim>\<open>message\<close>\<close>
  | OtherValue string \<comment> \<open>any other thrown value, with its \<^verbatim>\<open>String(...)\<close> conversion\<close>

fun error_text :: "thrown \<Rightarrow> string" where
  "error_text (ErrorObj m) = m"
| "error_text (OtherValue s) = s"

text \<open>Calls of \<^verbatim>\<open>logger.info\<close> and \<^verbatim>\<open>logger.error\<close>: the message, and for an
  error the \<^verbatim>\<open>error\<close> field of its metadata (the other metadata fields are not kept).\<close>

datatype log_entry =
    LogInfo string
  | LogError string string

text \<open>JavaScript truthiness of a \<^verbatim>\<open>string | undefined\<close>: neither undefined nor empty.\<close>

fun truthy_str :: "string option \<Rightarrow> bool" where
  "truthy_str None = False"
| "truthy_str (Some s) = (s \<noteq> [])"

section \<open>The session registry: \<^verbatim>\<open>transports\<close> in \<^verbatim>\<open>run\<close>\<close>

text \<open>
  \<^verbatim>\<open>const transports: { [sessionId: string]: StreamableHTTPServerTransport } = {}\<close>.
  A transport object is known by its identity; the registry's own properties map a
  session id to a transport.
\<close>

type_synonym transport_ref = nat

type_synonym registry = "string \<rightharpoonup> transport_ref"

text \<open>
  \<^verbatim>\<open>transports\<close> is an object literal, so a read \<^verbatim>\<open>transports[key]\<close> that finds no own
  property goes on to \<^verbatim>\<open>Object.prototype\<close>. These are the property names found there
  (each a function, \<^verbatim>\<open>__proto__\<close> the prototype object itself: all truthy, none a transport).
\<close>

definition object_prototype_keys :: "string list" where
  "object_prototype_keys =
     [''constructor'', ''__proto__'', ''hasOwnProperty'', ''isPrototypeOf'',
      ''propertyIsEnumerable'', ''toLocaleString'', ''toString'', ''valueOf'',
      ''__defineGetter__'', ''__defineSetter__'', ''__lookupGetter__'',
      ''__lookupSetter__'']"

datatype lookup =
    Undefined                 \<comment> \<open>no such property: \<^verbatim>\<open>undefined\<close>\<close>
  | Transport transport_ref   \<comment> \<open>an own property: a registered transport\<close>
  | Inherited                 \<comment> \<open>a member of \<^verbatim>\<open>Object.prototype\<close>\<close>

definition get_transport :: "registry \<Rightarrow> string \<Rightarrow> lookup" where
  "get_transport t k =
     (case t k of
        Some r \<Rightarrow> Transport r
      | None \<Rightarrow> if k \<in> set object_prototype_keys then Inherited else Undefined)"

fun truthy_lookup :: "lookup \<Rightarrow> bool" where
  "truthy_lookup Undefined = False"
| "truthy_lookup (Transport r) = True"
| "truthy_lookup Inherited = True"

text \<open>
  \<^verbatim>\<open>transports[sessionId] = transport\<close> in the \<^verbatim>\<open>onsessioninitialized\<close> callback. The id
  is the one \<^verbatim>\<open>sessionIdGenerator: () => randomUUID()\<close> produced, a 36-character UUID, for
  which the assignment creates or overwrites an own property.
\<close>

definition put_transport :: "string \<Rightarrow> transport_ref \<Rightarrow> registry \<Rightarrow> registry" where
  "put_transport sid r t = t(sid \<mapsto> r)"

text \<open>\<^verbatim>\<open>delete transports[id]\<close>: removes an own property; where there is none it does
  nothing and does not throw.\<close>

definition remove_transport :: "string \<Rightarrow> registry \<Rightarrow> registry" where
  "remove_transport sid t = t(sid := None)"

text \<open>
  \<^verbatim>\<open>transport.onclose = () => { if (transport.sessionId) { delete transports[transport.sessionId]; } }\<close>.
  The argument is what \<^verbatim>\<open>transport.sessionId\<close> reads when the channel fires the callback.
\<close>

definition onclose :: "string option \<Rightarrow> registry \<Rightarrow> registry" where
  "onclose sid t =
     (if truthy_str sid then remove_transport (the sid) t else t)"

section \<open>The HTTP surface: requests, responses and the channel\<close>

datatype payload = JsonBody json | TextBody string

text \<open>The Express response object, as far as the handlers use it.\<close>

record response =
  headersSent :: bool
  statusCode :: nat
  sent :: "payload option"

definition fresh_response :: response where
  "fresh_response = \<lparr>headersSent = False, statusCode = 200, sent = None\<rparr>"

text \<open>\<^verbatim>\<open>res.status(code).json(obj)\<close> and \<^verbatim>\<open>res.status(code).send(text)\<close>.\<close>

definition status_json :: "nat \<Rightarrow> json \<Rightarrow> response \<Rightarrow> response" where
  "status_json code obj res =
     res\<lparr>headersSent := True, statusCode := code, sent := Some (JsonBody obj)\<rparr>"

definition status_send :: "nat \<Rightarrow> string \<Rightarrow> response \<Rightarrow> response" where
  "status_send code txt res =
     res\<lparr>headersSent := True, statusCode := code, sent := Some (TextBody txt)\<rparr>"

record request =
  session_header :: "string option"  \<comment> \<open>\<^verbatim>\<open>req.headers['mcp-session-id'] as string | undefined\<close>\<close>
  body :: json                       \<comment> \<open>\<^verbatim>\<open>req.body\<close>\<close>

text \<open>
  The channel (\<^verbatim>\<open>StreamableHTTPServerTransport\<close>) and the protocol server belong to the
  SDK, not to this repository. What a call into them does to the gateway is all that is
  modelled, and it is a parameter: while the call runs, the channel may fire the two
  callbacks the gateway gave it and may start the HTTP response; then the call returns or
  throws.
\<close>

datatype chan_action =
    SessionInitialized string  \<comment> \<open>the channel calls \<^verbatim>\<open>onsessioninitialized(id)\<close>\<close>
  | Closed "string option"     \<comment> \<open>the channel calls \<^verbatim>\<open>onclose()\<close>; \<^verbatim>\<open>transport.sessionId\<close> reads this\<close>
  | WriteHead nat              \<comment> \<open>the channel starts the response with this status\<close>

record channel_run =
  actions :: "chan_action list"
  raised :: "thrown option"

text \<open>What the gateway did, in order (a record kept beside the state, for the claims
  about ordering and about channels left alone).\<close>

datatype event =
    Constructed transport_ref
  | Connected transport_ref
  | Forwarded transport_ref "json option"
  | Confirmed transport_ref string
  | Registered string transport_ref

record gateway =
  transports :: registry
  created :: nat            \<comment> \<open>transports constructed so far: the next fresh identity\<close>
  logs :: "log_entry list"
  events :: "event list"

definition note_event :: "event \<Rightarrow> gateway \<Rightarrow> gateway" where
  "note_event e g = g\<lparr>events := events g @ [e]\<rparr>"

text \<open>One callback or write by the channel whose transport is \<open>r\<close>. The first equation is
  the \<^verbatim>\<open>onsessioninitialized\<close> closure (the channel has confirmed \<open>sid\<close>; the closure stores
  the transport under it), the second the \<^verbatim>\<open>onclose\<close> closure.\<close>

fun chan_step :: "transport_ref \<Rightarrow> gateway \<times> response \<Rightarrow> chan_action \<Rightarrow> gateway \<times> response" where
  "chan_step r (g, res) (SessionInitialized sid) =
     (note_event (Registered sid r)
        ((note_event (Confirmed r sid) g)\<lparr>transports := put_transport sid r (transports g)\<rparr>), res)"
| "chan_step r (g, res) (Closed sid) = (g\<lparr>transports := onclose sid (transports g)\<rparr>, res)"
| "chan_step r (g, res) (WriteHead code) = (g, res\<lparr>headersSent := True, statusCode := code\<rparr>)"

definition run_channel ::
  "transport_ref \<Rightarrow> channel_run \<Rightarrow> gateway \<times> response \<Rightarrow> (gateway \<times> response) \<times> thrown option" where
  "run_channel r run st = (foldl (chan_step r) st (actions run), raised run)"

text \<open>\<^verbatim>\<open>await transport.handleRequest(req, res, body)\<close> on what the registry read gave. Only a
  transport has the method; on a member of \<^verbatim>\<open>Object.prototype\<close> the call is a TypeError.\<close>

definition handleRequest ::
  "lookup \<Rightarrow> channel_run \<Rightarrow> json option \<Rightarrow> gateway \<times> response \<Rightarrow> (gateway \<times> response) \<times> thrown option" where
  "handleRequest tr run b st =
     (case tr of
        Transport r \<Rightarrow> run_channel r run (note_event (Forwarded r b) (fst st), snd st)
      | Inherited \<Rightarrow> (st, Some (ErrorObj ''transport.handleRequest is not a function''))
      | Undefined \<Rightarrow>
          (st, Some (ErrorObj ''Cannot read properties of undefined (reading 'handleRequest')'')))"

section \<open>POST /mcp\<close>

text \<open>What the SDK does during one POST: whether the transport's constructor and
  \<^verbatim>\<open>this.createServer()\<close> throw, and the runs of \<^verbatim>\<open>server.connect(transport)\<close> and of
  \<^verbatim>\<open>transport.handleRequest(req, res, req.body)\<close>.\<close>

record post_env =
  construct_raises :: "thrown option"
  create_server_raises :: "thrown option"
  connect_run :: channel_run
  handle_run :: channel_run

datatype route = Resume | Create | Reject

text \<open>The conditions of the \<^verbatim>\<open>if\<close> / \<^verbatim>\<open>else if\<close> / \<^verbatim>\<open>else\<close> chain; \<open>is_init\<close> is the SDK's
  \<^verbatim>\<open>isInitializeRequest\<close>.\<close>

definition classify :: "(json \<Rightarrow> bool) \<Rightarrow> registry \<Rightarrow> request \<Rightarrow> route" where
  "classify is_init t req =
     (let sessionId = session_header req in
      if truthy_str sessionId \<and> truthy_lookup (get_transport t (the sessionId)) then Resume
      else if \<not> truthy_str sessionId \<and> is_init (body req) then Create
      else Reject)"

definition bad_request_body :: json where
  "bad_request_body =
     JObj [(''jsonrpc'', JStr ''2.0''),
           (''error'', JObj [(''code'', JNum (- 32000)),
                             (''message'', JStr ''Bad Request: No valid session ID provided'')]),
           (''id'', JNull)]"

definition internal_error_body :: json where
  "internal_error_body =
     JObj [(''jsonrpc'', JStr ''2.0''),
           (''error'', JObj [(''code'', JNum (- 32603)),
                             (''message'', JStr ''Internal server error'')]),
           (''id'', JNull)]"

text \<open>The new-session branch up to, not including, the final \<^verbatim>\<open>handleRequest\<close>: construct
  the transport, set \<^verbatim>\<open>onclose\<close>, \<^verbatim>\<open>createServer()\<close>, \<^verbatim>\<open>await server.connect(transport)\<close>.\<close>

definition create_channel ::
  "post_env \<Rightarrow> gateway \<Rightarrow> (gateway \<times> response) \<times> (thrown + transport_ref)" where
  "create_channel env g =
     (case construct_raises env of
        Some e \<Rightarrow> ((g, fresh_response), Inl e)
      | None \<Rightarrow>
          (let r = created g;
               g1 = note_event (Constructed r) (g\<lparr>created := Suc r\<rparr>)
           in case create_server_raises env of
                Some e \<Rightarrow> ((g1, fresh_response), Inl e)
              | None \<Rightarrow>
                  (case run_channel r (connect_run env) (note_event (Connected r) g1, fresh_response) of
                     (st, Some e) \<Rightarrow> (st, Inl e)
                   | (st, None) \<Rightarrow> (st, Inr r))))"

text \<open>The \<^verbatim>\<open>try\<close> block of the POST handler.\<close>

definition post_try ::
  "(json \<Rightarrow> bool) \<Rightarrow> post_env \<Rightarrow> request \<Rightarrow> gateway \<Rightarrow> (gateway \<times> response) \<times> thrown option" where
  "post_try is_init env req g =
     (case classify is_init (transports g) req of
        Resume \<Rightarrow>
          handleRequest (get_transport (transports g) (the (session_header req)))
            (handle_run env) (Some (body req)) (g, fresh_response)
      | Create \<Rightarrow>
          (case create_channel env g of
             (st, Inl e) \<Rightarrow> (st, Some e)
           | (st, Inr r) \<Rightarrow> handleRequest (Transport r) (handle_run env) (Some (body req)) st)
      | Reject \<Rightarrow> ((g, status_json 400 bad_request_body fresh_response), None))"

text \<open>The \<^verbatim>\<open>catch\<close> block: log, and answer 500 unless the response has begun.\<close>

definition post_catch :: "(gateway \<times> response) \<times> thrown option \<Rightarrow> gateway \<times> response" where
  "post_catch out =
     (case out of
        (st, None) \<Rightarrow> st
      | ((g, res), Some e) \<Rightarrow>
          (let g' = g\<lparr>logs := logs g @ [LogError ''Error handling MCP request'' (error_text e)]\<rparr>
           in if \<not> headersSent res then (g', status_json 500 internal_error_body res)
              else (g', res)))"

definition post_mcp ::
  "(json \<Rightarrow> bool) \<Rightarrow> post_env \<Rightarrow> request \<Rightarrow> gateway \<Rightarrow> gateway \<times> response" where
  "post_mcp is_init env req g = post_catch (post_try is_init env req g)"

section \<open>GET /mcp and DELETE /mcp\<close>

text \<open>\<^verbatim>\<open>handleSessionRequest\<close>. It has no \<^verbatim>\<open>try\<close>: a throw is the rejection of the promise
  it returns, here the second component.\<close>

definition handleSessionRequest ::
  "channel_run \<Rightarrow> request \<Rightarrow> gateway \<Rightarrow> (gateway \<times> response) \<times> thrown option" where
  "handleSessionRequest run req g =
     (let sessionId = session_header req in
      if \<not> truthy_str sessionId \<or> \<not> truthy_lookup (get_transport (transports g) (the sessionId))
      then ((g, status_send 400 ''Invalid or missing session ID'' fresh_response), None)
      else handleRequest (get_transport (transports g) (the sessionId)) run None
             (g, fresh_response))"

section \<open>Text: joining, decimal numerals and \<^verbatim>\<open>JSON.stringify\<close>\<close>

text \<open>\<^verbatim>\<open>Array.prototype.join\<close> on strings.\<close>

fun join :: "string \<Rightarrow> string list \<Rightarrow> string" where
  "join sep [] = []"
| "join sep [x] = x"
| "join sep (x # y # ys) = x @ sep @ join sep (y # ys)"

definition nl :: string where
  "nl = [CHR 0x0A]"

text \<open>A non-negative integer in a template string: its decimal digits.\<close>

definition digit_char :: "nat \<Rightarrow> char" where
  "digit_char d = ''0123456789'' ! d"

fun show_nat :: "nat \<Rightarrow> string" where
  "show_nat n = (if n < 10 then [digit_char n] else show_nat (n div 10) @ [digit_char (n mod 10)])"

declare show_nat.simps [simp del]

definition hex_digit :: "nat \<Rightarrow> char" where
  "hex_digit d = ''0123456789abcdef'' ! d"

text \<open>
  \<^verbatim>\<open>JSON.stringify(value, null, 2)\<close> on JSON data. A string is quoted with the escapes of
  the standard (the quote, the backslash, the five short escapes, \<^verbatim>\<open>\u00XX\<close> for the other
  control characters). A non-empty array or object puts each member on a line of its own,
  indented two spaces further than the line that opens it. How a number prints
  (\<^verbatim>\<open>Number::toString\<close>) is the parameter \<open>nts\<close>.
\<close>

definition escape_char :: "char \<Rightarrow> string" where
  "escape_char c =
     (if c = CHR 0x22 then [CHR 0x5C, CHR 0x22]
      else if c = CHR 0x5C then [CHR 0x5C, CHR 0x5C]
      else if c = CHR 0x08 then [CHR 0x5C, CHR ''b'']
      else if c = CHR 0x0C then [CHR 0x5C, CHR ''f'']
      else if c = CHR 0x0A then [CHR 0x5C, CHR ''n'']
      else if c = CHR 0x0D then [CHR 0x5C, CHR ''r'']
      else if c = CHR 0x09 then [CHR 0x5C, CHR ''t'']
      else if (of_char c :: nat) < 32
        then [CHR 0x5C, CHR ''u'', CHR ''0'', CHR ''0'',
              hex_digit (of_char c div 16), hex_digit (of_char c mod 16)]
      else [c])"

definition quote :: "string \<Rightarrow> string" where
  "quote s = [CHR 0x22] @ concat (map escape_char s) @ [CHR 0x22]"

definition gap :: string where
  "gap = ''  ''"

fun stringify_at :: "(rat \<Rightarrow> string) \<Rightarrow> string \<Rightarrow> json \<Rightarrow> string" where
  "stringify_at nts ind JNull = ''null''"
| "stringify_at nts ind (JBool b) = (if b then ''true'' else ''false'')"
| "stringify_at nts ind (JNum n) = nts n"
| "stringify_at nts ind (JStr s) = quote s"
| "stringify_at nts ind (JArr xs) =
     (if xs = [] then ''[]''
      else ''['' @ nl @ (ind @ gap)
           @ join ('','' @ nl @ (ind @ gap)) (map (stringify_at nts (ind @ gap)) xs)
           @ nl @ ind @ '']'')"
| "stringify_at nts ind (JObj ps) =
     (if ps = [] then ''{}''
      else ''{'' @ nl @ (ind @ gap)
           @ join ('','' @ nl @ (ind @ gap))
               (map (\<lambda>(k, v). quote k @ '': '' @ stringify_at nts (ind @ gap) v) ps)
           @ nl @ ind @ ''}'')"

definition stringify :: "(rat \<Rightarrow> string) \<Rightarrow> json \<Rightarrow> string" where
  "stringify nts v = stringify_at nts [] v"

text \<open>Reading a property of parsed JSON (\<open>None\<close> is \<^verbatim>\<open>undefined\<close>), and truthiness.\<close>

fun get_prop :: "json \<Rightarrow> string \<Rightarrow> json option" where
  "get_prop (JObj ps) k = map_of ps k"
| "get_prop v k = None"

fun truthy_json :: "json option \<Rightarrow> bool" where
  "truthy_json None = False"
| "truthy_json (Some JNull) = False"
| "truthy_json (Some (JBool b)) = b"
| "truthy_json (Some (JNum n)) = (n \<noteq> 0)"
| "truthy_json (Some (JStr s)) = (s \<noteq> [])"
| "truthy_json (Some (JArr xs)) = True"
| "truthy_json (Some (JObj ps)) = True"

text \<open>\<^verbatim>\<open>a || d\<close> on an optional string and on an optional number.\<close>

definition or_str :: "string option \<Rightarrow> string \<Rightarrow> string" where
  "or_str a d = (if truthy_str a then the a else d)"

fun truthy_num :: "rat option \<Rightarrow> bool" where
  "truthy_num None = False"
| "truthy_num (Some n) = (n \<noteq> 0)"

definition or_num :: "rat option \<Rightarrow> rat \<Rightarrow> rat" where
  "or_num a d = (if truthy_num a then the a else d)"

section \<open>The search service: \<^verbatim>\<open>services/searchapi.ts\<close>\<close>

record InstallmentInfo =
  down_payment :: string
  extracted_down_payment :: rat
  months :: string
  extracted_months :: rat
  cost_per_month :: string
  extracted_cost_per_month :: rat

record ShoppingResult =
  position :: rat
  product_id :: string
  title :: string
  product_link :: string
  seller :: string
  offers :: string
  extracted_offers :: rat
  offers_link :: string
  price :: string
  extracted_price :: rat
  installment :: "InstallmentInfo option"
  rating :: "rat option"
  reviews :: "rat option"
  delivery :: "string option"
  thumbnail :: string

text \<open>
  \<^verbatim>\<open>Omit<GoogleShoppingSearchParams, 'q'>\<close> and \<^verbatim>\<open>GoogleShoppingSearchParams\<close>. An optional
  property is \<open>None\<close> when the object does not have it. The properties \<^verbatim>\<open>location\<close> and
  \<^verbatim>\<open>filter\<close> are \<open>location_p\<close> and \<open>filter_p\<close> here.
\<close>

record search_options =
  gl :: "string option"
  hl :: "string option"
  location_p :: "string option"
  start :: "rat option"
  num :: "rat option"
  tbm :: "string option"
  tbs :: "string option"
  safe :: "string option"
  nfpr :: "string option"
  filter_p :: "string option"

record GoogleShoppingSearchParams = search_options +
  q :: string

text \<open>What \<^verbatim>\<open>axios.get(this.baseUrl, { params: { engine, api_key, ...params }, timeout,
  headers })\<close> sends.\<close>

record http_request =
  url :: string
  engine :: string
  api_key :: string
  params :: GoogleShoppingSearchParams
  timeout :: nat
  user_agent :: string

record axios_response =
  status :: nat
  data :: json

text \<open>
  What \<^verbatim>\<open>axios.get\<close> can throw: an AxiosError (with its message) that carries a response
  (status, \<^verbatim>\<open>data?.message\<close> where the error body has a string there, status text), one
  that carries only the request, one that carries neither, or some other value.
\<close>

datatype axios_failure =
    WithResponse string nat "string option" string
  | WithRequest string
  | Bare string
  | NotAxios thrown

text \<open>The HTTP client is a parameter: its answer to a request, given how many requests
  were sent before. The world records the requests sent and the log lines written.\<close>

type_synonym axios = "nat \<Rightarrow> http_request \<Rightarrow> axios_failure + axios_response"

record world =
  calls :: "http_request list"
  tool_logs :: "log_entry list"

definition log_line :: "log_entry \<Rightarrow> world \<Rightarrow> world" where
  "log_line e w = w\<lparr>tool_logs := tool_logs w @ [e]\<rparr>"

definition baseUrl :: string where
  "baseUrl = ''https://www.searchapi.io/api/v1/search''"

text \<open>\<^verbatim>\<open>error instanceof Error ? error.message : String(error)\<close> on what axios threw.\<close>

fun failure_message :: "axios_failure \<Rightarrow> string" where
  "failure_message (WithResponse m st dm stext) = m"
| "failure_message (WithRequest m) = m"
| "failure_message (Bare m) = m"
| "failure_message (NotAxios e) = error_text e"

text \<open>The \<^verbatim>\<open>catch\<close> block of \<^verbatim>\<open>googleShoppingSSearch\<close>: the error it throws.\<close>

fun service_error :: "axios_failure \<Rightarrow> thrown" where
  "service_error (WithResponse m st dm stext) =
     ErrorObj (''SearchAPI request failed with status '' @ show_nat st @ '': '' @ or_str dm stext)"
| "service_error (WithRequest m) = ErrorObj ''SearchAPI request failed: No response received''"
| "service_error (Bare m) = ErrorObj (''SearchAPI request failed: '' @ m)"
| "service_error (NotAxios e) = ErrorObj (''SearchAPI request failed: '' @ error_text e)"

definition service_catch :: "axios_failure \<Rightarrow> world \<Rightarrow> (thrown + json) \<times> world" where
  "service_catch f w =
     (Inl (service_error f),
      log_line (LogError ''Google Shopping search failed'' (failure_message f)) w)"

text \<open>\<^verbatim>\<open>googleShoppingSSearch\<close>. After a response, the success log line reads
  \<^verbatim>\<open>response.data.shopping_results\<close>, a TypeError inside the \<^verbatim>\<open>try\<close> when the body is
  \<^verbatim>\<open>null\<close>.\<close>

definition googleShoppingSSearch ::
  "axios \<Rightarrow> string \<Rightarrow> GoogleShoppingSearchParams \<Rightarrow> world \<Rightarrow> (thrown + json) \<times> world" where
  "googleShoppingSSearch http apiKey ps w =
     (let w1 = log_line (LogInfo ''Starting Google Shopping search'') w;
          request = \<lparr>url = baseUrl, engine = ''google_shopping'', api_key = apiKey, params = ps,
                     timeout = 30000, user_agent = ''MCP-SearchAPI-Server/1.0.0''\<rparr>;
          w2 = w1\<lparr>calls := calls w1 @ [request]\<rparr>
      in case http (length (calls w)) request of
           Inl f \<Rightarrow> service_catch f w2
         | Inr response \<Rightarrow>
             if data response = JNull
             then service_catch
                    (NotAxios (ErrorObj
                       ''Cannot read properties of null (reading 'shopping_results')'')) w2
             else (Inr (data response),
                   log_line (LogInfo ''Google Shopping search completed successfully'') w2))"

text \<open>An object spread \<^verbatim>\<open>{ key: base, ...options }\<close> at one key: a property the options
  have wins.\<close>

definition spread :: "'a option \<Rightarrow> 'a option \<Rightarrow> 'a option" where
  "spread base over = (case over of Some v \<Rightarrow> Some v | None \<Rightarrow> base)"

text \<open>The \<^verbatim>\<open>searchParams\<close> object that \<^verbatim>\<open>searchProducts\<close> and
  \<^verbatim>\<open>searchProductsWithMetadata\<close> both build.\<close>

definition searchParams :: "string \<Rightarrow> search_options \<Rightarrow> GoogleShoppingSearchParams" where
  "searchParams qry options =
     \<lparr>gl = spread (Some (or_str (gl options) ''us'')) (gl options),
      hl = spread (Some (or_str (hl options) ''en'')) (hl options),
      location_p = spread (Some (or_str (location_p options) ''United States''))
                     (location_p options),
      start = start options, num = num options, tbm = tbm options, tbs = tbs options,
      safe = safe options, nfpr = nfpr options, filter_p = filter_p options,
      q = qry\<rparr>"

definition searchProducts ::
  "axios \<Rightarrow> string \<Rightarrow> string \<Rightarrow> search_options \<Rightarrow> world \<Rightarrow> (thrown + json) \<times> world" where
  "searchProducts http apiKey qry options w =
     (case googleShoppingSSearch http apiKey (searchParams qry options) w of
        (Inl e, w') \<Rightarrow> (Inl e, w')
      | (Inr response, w') \<Rightarrow>
          (Inr (if truthy_json (get_prop response ''shopping_results'')
                then the (get_prop response ''shopping_results'') else JArr []), w'))"

definition searchProductsWithMetadata ::
  "axios \<Rightarrow> string \<Rightarrow> string \<Rightarrow> search_options \<Rightarrow> world \<Rightarrow> (thrown + json) \<times> world" where
  "searchProductsWithMetadata http apiKey qry options w =
     googleShoppingSSearch http apiKey (searchParams qry options) w"

text \<open>
  \<^verbatim>\<open>formatShoppingResults\<close>: the callback of \<^verbatim>\<open>results.map\<close>, then the method. \<open>nts\<close> prints
  a number in a template string, \<open>nls\<close> is \<^verbatim>\<open>toLocaleString\<close>.
\<close>

definition format_entry ::
  "(rat \<Rightarrow> string) \<Rightarrow> (rat \<Rightarrow> string) \<Rightarrow> ShoppingResult \<Rightarrow> nat \<Rightarrow> string" where
  "format_entry nts nls result index =
     join nl
       ([show_nat (index + 1) @ ''. **'' @ title result @ ''**'',
         ''   Seller: '' @ seller result,
         ''   Price: '' @ price result]
        @ (if truthy_num (rating result)
           then [''   Rating: '' @ nts (the (rating result)) @ ''/5 (''
                 @ (case reviews result of
                      Some n \<Rightarrow> if nls n \<noteq> [] then nls n else ''0''
                    | None \<Rightarrow> ''0'')
                 @ '' reviews)'']
           else [])
        @ (if truthy_str (delivery result)
           then [''   Delivery: '' @ the (delivery result)] else [])
        @ (case installment result of
             Some i \<Rightarrow> [''   Installment: '' @ down_payment i @ '' + '' @ cost_per_month i
                        @ '' for '' @ months i @ '' months'']
           | None \<Rightarrow> [])
        @ [''   Product Link: '' @ product_link result,
           ''   Offers: '' @ offers result @ '' available''])"

definition formatShoppingResults ::
  "(rat \<Rightarrow> string) \<Rightarrow> (rat \<Rightarrow> string) \<Rightarrow> ShoppingResult list \<Rightarrow> string" where
  "formatShoppingResults nts nls results =
     (if results = [] then ''No shopping results found.''
      else join (nl @ nl)
             (map (\<lambda>(result, index). format_entry nts nls result index)
                (zip results [0 ..< length results])))"

text \<open>The JSON object a \<^verbatim>\<open>ShoppingResult\<close> is at run time, its properties in the order of
  the interface; an optional property is there when the entry has it.\<close>

definition opt_prop :: "string \<Rightarrow> ('a \<Rightarrow> json) \<Rightarrow> 'a option \<Rightarrow> (string \<times> json) list" where
  "opt_prop k f v = (case v of Some x \<Rightarrow> [(k, f x)] | None \<Rightarrow> [])"

definition json_of_installment :: "InstallmentInfo \<Rightarrow> json" where
  "json_of_installment i =
     JObj [(''down_payment'', JStr (down_payment i)),
           (''extracted_down_payment'', JNum (extracted_down_payment i)),
           (''months'', JStr (months i)),
           (''extracted_months'', JNum (extracted_months i)),
           (''cost_per_month'', JStr (cost_per_month i)),
           (''extracted_cost_per_month'', JNum (extracted_cost_per_month i))]"

definition json_of_result :: "ShoppingResult \<Rightarrow> json" where
  "json_of_result r =
     JObj ([(''position'', JNum (position r)),
            (''product_id'', JStr (product_id r)),
            (''title'', JStr (title r)),
            (''product_link'', JStr (product_link r)),
            (''seller'', JStr (seller r)),
            (''offers'', JStr (offers r)),
            (''extracted_offers'', JNum (extracted_offers r)),
            (''offers_link'', JStr (offers_link r)),
            (''price'', JStr (price r)),
            (''extracted_price'', JNum (extracted_price r))]
           @ opt_prop ''installment'' json_of_installment (installment r)
           @ opt_prop ''rating'' JNum (rating r)
           @ opt_prop ''reviews'' JNum (reviews r)
           @ opt_prop ''delivery'' JStr (delivery r)
           @ [(''thumbnail'', JStr (thumbnail r))])"

section \<open>The tool \<^verbatim>\<open>google-shopping-search\<close>: \<^verbatim>\<open>createServer\<close> in \<^verbatim>\<open>index.ts\<close>\<close>

text \<open>The arguments the handler receives once the schema has accepted them.\<close>

record tool_args =
  query :: string
  location :: "string option"
  country :: "string option"
  language :: "string option"
  maxResults :: "rat option"
  includeMetadata :: "bool option"

text \<open>
  The zod schema of the tool, applied to the arguments object of a call. \<^verbatim>\<open>z.string()\<close>
  accepts a string, any string; \<^verbatim>\<open>.optional()\<close> also accepts a missing property, and
  hands \<^verbatim>\<open>undefined\<close> on (were the inner \<^verbatim>\<open>.default(10)\<close> or \<^verbatim>\<open>.default(false)\<close> applied
  to a missing property instead, the handler below would build the same request and take
  the same branch). The outer result is \<open>None\<close> where the schema rejects.
\<close>

fun z_string :: "json option \<Rightarrow> string option" where
  "z_string (Some (JStr s)) = Some s"
| "z_string v = None"

fun z_string_optional :: "json option \<Rightarrow> string option option" where
  "z_string_optional None = Some None"
| "z_string_optional (Some (JStr s)) = Some (Some s)"
| "z_string_optional v = None"

fun z_number_optional :: "json option \<Rightarrow> rat option option" where
  "z_number_optional None = Some None"
| "z_number_optional (Some (JNum n)) = Some (Some n)"
| "z_number_optional v = None"

fun z_boolean_optional :: "json option \<Rightarrow> bool option option" where
  "z_boolean_optional None = Some None"
| "z_boolean_optional (Some (JBool b)) = Some (Some b)"
| "z_boolean_optional v = None"

definition schema_parse :: "(string \<times> json) list \<Rightarrow> tool_args option" where
  "schema_parse raw =
     Option.bind (z_string (map_of raw ''query'')) (\<lambda>qry.
     Option.bind (z_string_optional (map_of raw ''location'')) (\<lambda>loc.
     Option.bind (z_string_optional (map_of raw ''country'')) (\<lambda>ctry.
     Option.bind (z_string_optional (map_of raw ''language'')) (\<lambda>lang.
     Option.bind (z_number_optional (map_of raw ''maxResults'')) (\<lambda>mx.
     Option.bind (z_boolean_optional (map_of raw ''includeMetadata'')) (\<lambda>meta.
       Some \<lparr>query = qry, location = loc, country = ctry, language = lang,
             maxResults = mx, includeMetadata = meta\<rparr>))))))"

datatype content = TextContent string

text \<open>The \<^verbatim>\<open>searchOptions\<close> object of the handler.\<close>

definition searchOptions :: "tool_args \<Rightarrow> search_options" where
  "searchOptions a =
     \<lparr>gl = Some (or_str (country a) ''us''),
      hl = Some (or_str (language a) ''en''),
      location_p = Some (or_str (location a) ''United States''),
      start = None,
      num = Some (or_num (maxResults a) 10),
      tbm = None, tbs = None, safe = None, nfpr = None, filter_p = None\<rparr>"

text \<open>The \<^verbatim>\<open>try\<close> block of the handler, then the handler with its \<^verbatim>\<open>catch\<close>.\<close>

definition handler_try ::
  "(rat \<Rightarrow> string) \<Rightarrow> axios \<Rightarrow> string \<Rightarrow> tool_args \<Rightarrow> world \<Rightarrow> (thrown + content list) \<times> world" where
  "handler_try nts http apiKey a w =
     (let w1 = log_line (LogInfo ''Processing Google Shopping search request'') w
      in if includeMetadata a = Some True
         then (case searchProductsWithMetadata http apiKey (query a) (searchOptions a) w1 of
                 (Inl e, w') \<Rightarrow> (Inl e, w')
               | (Inr fullResponse, w') \<Rightarrow> (Inr [TextContent (stringify nts fullResponse)], w'))
         else (case searchProducts http apiKey (query a) (searchOptions a) w1 of
                 (Inl e, w') \<Rightarrow> (Inl e, w')
               | (Inr results, w') \<Rightarrow> (Inr [TextContent (stringify nts results)], w')))"

definition tool_handler ::
  "(rat \<Rightarrow> string) \<Rightarrow> axios \<Rightarrow> string \<Rightarrow> tool_args \<Rightarrow> world \<Rightarrow> (thrown + content list) \<times> world" where
  "tool_handler nts http apiKey a w =
     (case handler_try nts http apiKey a w of
        (Inl e, w') \<Rightarrow>
          (Inl (ErrorObj (''Google Shopping search failed: '' @ error_text e)),
           log_line (LogError ''Google Shopping search failed'' (error_text e)) w')
      | (Inr c, w') \<Rightarrow> (Inr c, w'))"

text \<open>A tool call as the protocol server runs it: the arguments go through the schema,
  and the handler runs only on what the schema accepted.\<close>

datatype tool_outcome = InvalidParams | Failed thrown | Returned "content list"

definition call_tool ::
  "(rat \<Rightarrow> string) \<Rightarrow> axios \<Rightarrow> string \<Rightarrow> (string \<times> json) list \<Rightarrow> world \<Rightarrow> tool_outcome \<times> world" where
  "call_tool nts http apiKey raw w =
     (case schema_parse raw of
        None \<Rightarrow> (InvalidParams, w)
      | Some a \<Rightarrow>
          (case tool_handler nts http apiKey a w of
             (Inl e, w') \<Rightarrow> (Failed e, w')
           | (Inr c, w') \<Rightarrow> (Returned c, w')))"

section \<open>Notions for the order of events\<close>

text \<open>\<open>a\<close> occurs in \<open>xs\<close> before the first occurrence of \<open>b\<close>.\<close>

definition occurs_before :: "'a \<Rightarrow> 'a \<Rightarrow> 'a list \<Rightarrow> bool" where
  "occurs_before a b xs = (b \<in> set xs \<and> a \<in> set (takeWhile (\<lambda>x. x \<noteq> b) xs))"

text \<open>In a list of events every confirmation of an id by a channel is directly followed by
  the registration of that channel under that id, and there is no other registration.\<close>

fun paired :: "event list \<Rightarrow> bool" where
  "paired [] = True"
| "paired (Confirmed r sid # Registered sid' r' # es) = (r = r' \<and> sid = sid' \<and> paired es)"
| "paired (Confirmed r sid # es) = False"
| "paired (Registered sid r # es) = False"
| "paired (e # es) = paired es"

text \<open>The events one channel action leaves (see \<open>chan_step\<close>).\<close>

fun action_events :: "transport_ref \<Rightarrow> chan_action \<Rightarrow> event list" where
  "action_events r (SessionInitialized sid) = [Confirmed r sid, Registered sid r]"
| "action_events r (Closed sid) = []"
| "action_events r (WriteHead code) = []"

text \<open>The events of one POST on the new-session branch, stage by stage: nothing after
  the stage that throws.\<close>

definition create_path_events :: "post_env \<Rightarrow> transport_ref \<Rightarrow> json \<Rightarrow> event list" where
  "create_path_events env r b =
     (case construct_raises env of
        Some e \<Rightarrow> []
      | None \<Rightarrow>
          Constructed r #
          (case create_server_raises env of
             Some e \<Rightarrow> []
           | None \<Rightarrow>
               Connected r # concat (map (action_events r) (actions (connect_run env))) @
               (case raised (connect_run env) of
                  Some e \<Rightarrow> []
                | None \<Rightarrow>
                    Forwarded r (Some b) #
                    concat (map (action_events r) (actions (handle_run env))))))"

section \<open>Concrete inputs\<close>

text \<open>Inputs at which the theorems below are evaluated: an empty gateway, an
  initialization message, and an SDK that behaves as the real one does on a new session (it
  calls \<^verbatim>\<open>sessionIdGenerator\<close> and then \<^verbatim>\<open>onsessioninitialized\<close> while it handles the
  initialization request, and then starts the response).\<close>

definition g0 :: gateway where
  "g0 = \<lparr>transports = Map.empty, created = 0, logs = [], events = []\<rparr>"

definition init_body :: json where
  "init_body =
     JObj [(''jsonrpc'', JStr ''2.0''), (''id'', JNum 1), (''method'', JStr ''initialize'')]"

definition quiet_run :: channel_run where
  "quiet_run = \<lparr>actions = [], raised = None\<rparr>"

definition sdk_env :: "string \<Rightarrow> post_env" where
  "sdk_env sid =
     \<lparr>construct_raises = None, create_server_raises = None, connect_run = quiet_run,
      handle_run = \<lparr>actions = [SessionInitialized sid, WriteHead 200], raised = None\<rparr>\<rparr>"

definition g_resumable :: gateway where
  "g_resumable = \<lparr>transports = [''s1'' \<mapsto> 0], created = 1, logs = [], events = []\<rparr>"

definition failing_env :: post_env where
  "failing_env =
     \<lparr>construct_raises = None, create_server_raises = None, connect_run = quiet_run,
      handle_run = \<lparr>actions = [WriteHead 200], raised = Some (ErrorObj ''stream broke'')\<rparr>\<rparr>"

text \<open>For the tool: an empty world, an HTTP client that gets no response, one that
  answers with a given body, and how a non-negative whole number prints.\<close>

definition w0 :: world where
  "w0 = \<lparr>calls = [], tool_logs = []\<rparr>"

definition http_down :: axios where
  "http_down i request = Inl (WithRequest ''timeout of 30000ms exceeded'')"

definition http_ok :: "json \<Rightarrow> axios" where
  "http_ok v i request = Inr \<lparr>status = 200, data = v\<rparr>"

definition whole_number_text :: "rat \<Rightarrow> string" where
  "whole_number_text n = show_nat (nat \<lfloor>n\<rfloor>)"

definition plain_args :: "string \<Rightarrow> tool_args" where
  "plain_args s =
     \<lparr>query = s, location = None, country = None, language = None, maxResults = None,
      includeMetadata = None\<rparr>"

definition headphones :: ShoppingResult where
  "headphones =
     \<lparr>position = 1, product_id = ''p1'', title = ''Wireless Headphones'',
      product_link = ''https://shop.example/p1'', seller = ''Acme'', offers = ''3'',
      extracted_offers = 3, offers_link = ''https://shop.example/p1/offers'',
      price = ''$59'', extracted_price = 59, installment = None, rating = None,
      reviews = None, delivery = None, thumbnail = ''https://img.example/p1.png''\<rparr>"

section \<open>Properties of the session registry\<close>

lemma remove_transport_absent: "t sid = None \<Longrightarrow> remove_transport sid t = t"
  by (auto simp: remove_transport_def)

lemma remove_transport_twice:
  "remove_transport sid (remove_transport sid t) = remove_transport sid t"
  by (simp add: remove_transport_def)

text \<open>
  Claim C5. Removing a session id is idempotent: where the registry has no entry for the
  id, the removal, and the close callback that performs it, leave the registry as it was,
  and a lookup of the id reads the same before and after; removing the same id twice in a
  row is the same as removing it once. \<^verbatim>\<open>delete\<close> on a property the object does not have
  returns normally, so the removal has no error result to give.
\<close>

theorem remove_idempotent:
  "(t sid = None \<longrightarrow>
      remove_transport sid t = t \<and> onclose (Some sid) t = t
      \<and> get_transport (remove_transport sid t) sid = get_transport t sid)
   \<and> remove_transport sid (remove_transport sid t) = remove_transport sid t
   \<and> onclose (Some sid) (onclose (Some sid) t) = onclose (Some sid) t"
  by (auto simp: onclose_def remove_transport_absent remove_transport_twice)

theorem remove_idempotent_witness:
  "transports g_resumable ''s2'' = None
   \<and> remove_transport ''s2'' (transports g_resumable) = transports g_resumable
   \<and> onclose (Some ''s2'') (transports g_resumable) = transports g_resumable
   \<and> onclose (Some ''s1'') (onclose (Some ''s1'') (transports g_resumable))
       = onclose (Some ''s1'') (transports g_resumable)"
  using remove_idempotent [of "transports g_resumable" "''s2''"]
    remove_idempotent [of "transports g_resumable" "''s1''"]
  by (simp add: g_resumable_def)

section \<open>Properties of the POST handler\<close>

lemma chan_step_events: "prefix (events (fst st)) (events (fst (chan_step r st a)))"
  by (cases st; cases a) (auto simp: note_event_def)

lemma chan_step_created: "created (fst (chan_step r st a)) = created (fst st)"
  by (cases st; cases a) (auto simp: note_event_def)

lemma chan_step_logs: "logs (fst (chan_step r st a)) = logs (fst st)"
  by (cases st; cases a) (auto simp: note_event_def)

lemma foldl_chan_step_events:
  "prefix (events (fst st)) (events (fst (foldl (chan_step r) st as)))"
proof (induction as arbitrary: st)
  case Nil
  show ?case by simp
next
  case (Cons a as)
  have "prefix (events (fst st)) (events (fst (chan_step r st a)))"
    by (rule chan_step_events)
  also have "prefix \<dots> (events (fst (foldl (chan_step r) (chan_step r st a) as)))"
    by (rule Cons.IH)
  finally show ?case by simp
qed

lemma foldl_chan_step_created:
  "created (fst (foldl (chan_step r) st as)) = created (fst st)"
  by (induction as arbitrary: st) (simp_all add: chan_step_created)

lemma foldl_chan_step_logs:
  "logs (fst (foldl (chan_step r) st as)) = logs (fst st)"
  by (induction as arbitrary: st) (simp_all add: chan_step_logs)

lemma post_catch_events: "events (fst (post_catch out)) = events (fst (fst out))"
  by (cases out) (auto simp: post_catch_def Let_def split: option.splits prod.splits)

lemma post_catch_created: "created (fst (post_catch out)) = created (fst (fst out))"
  by (cases out) (auto simp: post_catch_def Let_def split: option.splits prod.splits)

lemma post_catch_transports: "transports (fst (post_catch out)) = transports (fst (fst out))"
  by (cases out) (auto simp: post_catch_def Let_def split: option.splits prod.splits)

lemma classify_resume:
  "classify is_init t req = Resume \<longleftrightarrow>
     (\<exists>sid. session_header req = Some sid \<and> sid \<noteq> [] \<and>
        (t sid \<noteq> None \<or> sid \<in> set object_prototype_keys))"
  by (cases "session_header req")
     (auto simp: classify_def Let_def get_transport_def split: option.splits)

lemma classify_create:
  "classify is_init t req = Create \<longleftrightarrow>
     (session_header req = None \<or> session_header req = Some []) \<and> is_init (body req)"
  by (cases "session_header req")
     (auto simp: classify_def Let_def get_transport_def split: option.splits)

lemma handleRequest_transport_events:
  "prefix (events (fst st) @ [Forwarded r b]) (events (fst (fst (handleRequest (Transport r) run b st))))"
  using foldl_chan_step_events [of "(note_event (Forwarded r b) (fst st), snd st)" r "actions run"]
  by (simp add: handleRequest_def run_channel_def note_event_def)

lemma handleRequest_transport_created:
  "created (fst (fst (handleRequest (Transport r) run b st))) = created (fst st)"
  by (simp add: handleRequest_def run_channel_def note_event_def foldl_chan_step_created)

lemma create_channel_events:
  "construct_raises env = None \<Longrightarrow>
   prefix (events g @ [Constructed (created g)]) (events (fst (fst (create_channel env g))))"
  using foldl_chan_step_events [of "(note_event (Connected (created g))
      (note_event (Constructed (created g)) (g\<lparr>created := Suc (created g)\<rparr>)), fresh_response)"
      "created g" "actions (connect_run env)"]
  by (auto simp: create_channel_def Let_def run_channel_def note_event_def prefix_def
           split: option.splits prod.splits)

lemma create_channel_created:
  "construct_raises env = None \<Longrightarrow>
   created (fst (fst (create_channel env g))) = Suc (created g)"
  by (auto simp: create_channel_def Let_def run_channel_def note_event_def foldl_chan_step_created
           split: option.splits prod.splits)


lemma post_mcp_resume:
  assumes "session_header req = Some sid" "sid \<noteq> []" "transports g sid = Some r"
  shows "classify is_init (transports g) req = Resume
    \<and> prefix (events g @ [Forwarded r (Some (body req))])
               (events (fst (post_mcp is_init env req g)))
    \<and> created (fst (post_mcp is_init env req g)) = created g"
proof -
  have c: "classify is_init (transports g) req = Resume"
    using assms by (auto simp: classify_resume)
  have t: "get_transport (transports g) (the (session_header req)) = Transport r"
    using assms by (simp add: get_transport_def)
  have p: "post_try is_init env req g =
      handleRequest (Transport r) (handle_run env) (Some (body req)) (g, fresh_response)"
    by (simp add: post_try_def c t)
  have "prefix (events g @ [Forwarded r (Some (body req))])
               (events (fst (post_mcp is_init env req g)))"
    using handleRequest_transport_events [of "(g, fresh_response)" r "Some (body req)" "handle_run env"]
    by (simp add: post_mcp_def post_catch_events p)
  moreover have "created (fst (post_mcp is_init env req g)) = created g"
    by (simp add: post_mcp_def post_catch_created p handleRequest_transport_created)
  ultimately show ?thesis using c by simp
qed

lemma post_mcp_create:
  assumes "session_header req = None \<or> session_header req = Some []" "is_init (body req)"
  shows "classify is_init (transports g) req = Create
    \<and> (construct_raises env = None \<longrightarrow>
           prefix (events g @ [Constructed (created g)])
                  (events (fst (post_mcp is_init env req g)))
           \<and> created (fst (post_mcp is_init env req g)) = Suc (created g))"
proof (intro conjI impI)
  show c: "classify is_init (transports g) req = Create"
    using assms by (simp add: classify_create)
  assume n: "construct_raises env = None"
  obtain st out where cc: "create_channel env g = (st, out)"
    by (cases "create_channel env g")
  have e: "prefix (events g @ [Constructed (created g)]) (events (fst st))"
    using create_channel_events [OF n, of g] cc by simp
  have k: "created (fst st) = Suc (created g)"
    using create_channel_created [OF n, of g] cc by simp
  show "prefix (events g @ [Constructed (created g)])
               (events (fst (post_mcp is_init env req g)))"
  proof (cases out)
    case (Inl x)
    then show ?thesis using e by (simp add: post_mcp_def post_catch_events post_try_def c cc)
  next
    case (Inr r)
    have "prefix (events (fst st))
            (events (fst (fst (handleRequest (Transport r) (handle_run env) (Some (body req)) st))))"
      using handleRequest_transport_events [of st r "Some (body req)" "handle_run env"]
      by (rule append_prefixD)
    with e have "prefix (events g @ [Constructed (created g)])
            (events (fst (fst (handleRequest (Transport r) (handle_run env) (Some (body req)) st))))"
      by (rule prefix_order.trans)
    with Inr show ?thesis
      by (simp add: post_mcp_def post_catch_events post_try_def c cc)
  qed
  show "created (fst (post_mcp is_init env req g)) = Suc (created g)"
    using k by (cases out)
      (simp_all add: post_mcp_def post_catch_created post_try_def c cc handleRequest_transport_created)
qed

lemma post_mcp_reject:
  assumes "\<not> (\<exists>sid. session_header req = Some sid \<and> sid \<noteq> [] \<and>
              (transports g sid \<noteq> None \<or> sid \<in> set object_prototype_keys))"
    and "\<not> ((session_header req = None \<or> session_header req = Some []) \<and> is_init (body req))"
  shows "classify is_init (transports g) req = Reject
    \<and> post_mcp is_init env req g = (g, status_json 400 bad_request_body fresh_response)"
proof -
  have "classify is_init (transports g) req \<noteq> Resume"
    using assms(1) by (simp only: classify_resume not_False_eq_True)
  moreover have "classify is_init (transports g) req \<noteq> Create"
    using assms(2) by (simp only: classify_create not_False_eq_True)
  ultimately have c: "classify is_init (transports g) req = Reject"
    by (cases "classify is_init (transports g) req") simp_all
  then show ?thesis
    by (simp add: post_mcp_def post_try_def post_catch_def)
qed


text \<open>
  Claim C1, as amended. Every POST /mcp falls into one of three cases. If the session-id
  header is a non-empty string and the registry holds a session under it, the body is
  forwarded to that session's channel and no channel is created (resume). Else if the
  header is absent or the empty string and the body is a session-initialization message, a
  new channel is created (create). Else, if the header is not the name of a member of
  \<^verbatim>\<open>Object.prototype\<close>, the gateway is left as it was and the response is sent with
  status 400 and the JSON body \<^verbatim>\<open>{ jsonrpc: "2.0", error: { code: -32000, message: "Bad
  Request: No valid session ID provided" }, id: null }\<close> (reject).
\<close>

theorem post_mcp_three_cases:
  "(\<forall>sid r. session_header req = Some sid \<and> sid \<noteq> [] \<and> transports g sid = Some r \<longrightarrow>
      classify is_init (transports g) req = Resume
      \<and> prefix (events g @ [Forwarded r (Some (body req))])
               (events (fst (post_mcp is_init env req g)))
      \<and> created (fst (post_mcp is_init env req g)) = created g)
   \<and> ((session_header req = None \<or> session_header req = Some []) \<and> is_init (body req) \<longrightarrow>
      classify is_init (transports g) req = Create
      \<and> (construct_raises env = None \<longrightarrow>
           prefix (events g @ [Constructed (created g)])
                  (events (fst (post_mcp is_init env req g)))
           \<and> created (fst (post_mcp is_init env req g)) = Suc (created g)))
   \<and> (\<not> (\<exists>sid. session_header req = Some sid \<and> sid \<noteq> [] \<and>
              (transports g sid \<noteq> None \<or> sid \<in> set object_prototype_keys))
       \<and> \<not> ((session_header req = None \<or> session_header req = Some []) \<and> is_init (body req)) \<longrightarrow>
      classify is_init (transports g) req = Reject
      \<and> post_mcp is_init env req g = (g, \<lparr>headersSent = True, statusCode = 400,
             sent = Some (JsonBody (JObj
               [(''jsonrpc'', JStr ''2.0''),
                (''error'',
                 JObj [(''code'', JNum (- 32000)),
                       (''message'', JStr ''Bad Request: No valid session ID provided'')]),
                (''id'', JNull)]))\<rparr>))"
proof (rule conjI [OF _ conjI])
  show "\<forall>sid r. session_header req = Some sid \<and> sid \<noteq> [] \<and> transports g sid = Some r \<longrightarrow>
      classify is_init (transports g) req = Resume
      \<and> prefix (events g @ [Forwarded r (Some (body req))])
               (events (fst (post_mcp is_init env req g)))
      \<and> created (fst (post_mcp is_init env req g)) = created g"
  proof (intro allI impI)
    fix sid r
    assume "session_header req = Some sid \<and> sid \<noteq> [] \<and> transports g sid = Some r"
    then show "classify is_init (transports g) req = Resume
      \<and> prefix (events g @ [Forwarded r (Some (body req))])
               (events (fst (post_mcp is_init env req g)))
      \<and> created (fst (post_mcp is_init env req g)) = created g"
      using post_mcp_resume [of req sid g r is_init env] by simp
  qed
next
  show "(session_header req = None \<or> session_header req = Some []) \<and> is_init (body req) \<longrightarrow>
      classify is_init (transports g) req = Create
      \<and> (construct_raises env = None \<longrightarrow>
           prefix (events g @ [Constructed (created g)])
                  (events (fst (post_mcp is_init env req g)))
           \<and> created (fst (post_mcp is_init env req g)) = Suc (created g))"
    using post_mcp_create [of req is_init g env] by simp
next
  show "\<not> (\<exists>sid. session_header req = Some sid \<and> sid \<noteq> [] \<and>
              (transports g sid \<noteq> None \<or> sid \<in> set object_prototype_keys))
       \<and> \<not> ((session_header req = None \<or> session_header req = Some []) \<and> is_init (body req)) \<longrightarrow>
      classify is_init (transports g) req = Reject
      \<and> post_mcp is_init env req g = (g, \<lparr>headersSent = True, statusCode = 400,
             sent = Some (JsonBody (JObj
               [(''jsonrpc'', JStr ''2.0''),
                (''error'',
                 JObj [(''code'', JNum (- 32000)),
                       (''message'', JStr ''Bad Request: No valid session ID provided'')]),
                (''id'', JNull)]))\<rparr>)"
    using post_mcp_reject [of req g is_init env]
    by (intro impI)
       (elim conjE, simp add: status_json_def bad_request_body_def fresh_response_def)
qed

text \<open>
  The claim C1 as stated fails on the code. With a session-id header that is present
  but empty, no session and an initialization body, the claim's third case applies (the
  header is not absent), yet the gateway creates a channel and the response is not the
  -32000 error. With the header \<^verbatim>\<open>constructor\<close>, again no session, the response is
  the 500 internal error of code -32603 rather than the 400 error of code -32000.
\<close>

theorem post_mcp_claimed_reject_fails:
  "snd (post_mcp (\<lambda>b. b = init_body) (sdk_env ''s1'')
          \<lparr>session_header = Some [], body = init_body\<rparr> g0)
     \<noteq> \<lparr>headersSent = True, statusCode = 400,
             sent = Some (JsonBody (JObj
               [(''jsonrpc'', JStr ''2.0''),
                (''error'',
                 JObj [(''code'', JNum (- 32000)),
                       (''message'', JStr ''Bad Request: No valid session ID provided'')]),
                (''id'', JNull)]))\<rparr>
   \<and> events (fst (post_mcp (\<lambda>b. b = init_body) (sdk_env ''s1'')
          \<lparr>session_header = Some [], body = init_body\<rparr> g0))
     = [Constructed 0, Connected 0, Forwarded 0 (Some init_body),
        Confirmed 0 ''s1'', Registered ''s1'' 0]
   \<and> snd (post_mcp (\<lambda>b. b = init_body) (sdk_env ''s1'')
          \<lparr>session_header = Some ''constructor'', body = init_body\<rparr> g0)
     = \<lparr>headersSent = True, statusCode = 500,
             sent = Some (JsonBody (JObj
               [(''jsonrpc'', JStr ''2.0''),
                (''error'',
                 JObj [(''code'', JNum (- 32603)),
                       (''message'', JStr ''Internal server error'')]),
                (''id'', JNull)]))\<rparr>"
  by (simp add: post_mcp_def post_try_def post_catch_def classify_def create_channel_def
      handleRequest_def run_channel_def note_event_def get_transport_def
      object_prototype_keys_def put_transport_def
      sdk_env_def quiet_run_def g0_def status_json_def fresh_response_def
      bad_request_body_def internal_error_body_def init_body_def)

theorem post_mcp_three_cases_witness:
  "prefix [Forwarded 0 (Some JNull)]
     (events (fst (post_mcp (\<lambda>b. b = init_body) (sdk_env ''s2'')
        \<lparr>session_header = Some ''s1'', body = JNull\<rparr> g_resumable)))
   \<and> prefix [Constructed 0]
     (events (fst (post_mcp (\<lambda>b. b = init_body) (sdk_env ''s1'')
        \<lparr>session_header = None, body = init_body\<rparr> g0)))
   \<and> post_mcp (\<lambda>b. b = init_body) (sdk_env ''s1'')
        \<lparr>session_header = Some ''s9'', body = init_body\<rparr> g0
       = (g0, \<lparr>headersSent = True, statusCode = 400,
             sent = Some (JsonBody (JObj
               [(''jsonrpc'', JStr ''2.0''),
                (''error'',
                 JObj [(''code'', JNum (- 32000)),
                       (''message'', JStr ''Bad Request: No valid session ID provided'')]),
                (''id'', JNull)]))\<rparr>)"
proof -
  have a: "session_header \<lparr>session_header = Some ''s1'', body = JNull\<rparr> = Some ''s1''
      \<and> ''s1'' \<noteq> [] \<and> transports g_resumable ''s1'' = Some 0"
    by (simp add: g_resumable_def)
  have b: "(session_header \<lparr>session_header = None, body = init_body\<rparr> = None
        \<or> session_header \<lparr>session_header = None, body = init_body\<rparr> = Some [])
      \<and> (\<lambda>b. b = init_body) (body \<lparr>session_header = None, body = init_body\<rparr>)"
    by simp
  have b': "construct_raises (sdk_env ''s1'') = None"
    by (simp add: sdk_env_def)
  have c: "\<not> (\<exists>sid. session_header \<lparr>session_header = Some ''s9'', body = init_body\<rparr> = Some sid
          \<and> sid \<noteq> [] \<and> (transports g0 sid \<noteq> None \<or> sid \<in> set object_prototype_keys))
      \<and> \<not> ((session_header \<lparr>session_header = Some ''s9'', body = init_body\<rparr> = None
            \<or> session_header \<lparr>session_header = Some ''s9'', body = init_body\<rparr> = Some [])
          \<and> (\<lambda>b. b = init_body) (body \<lparr>session_header = Some ''s9'', body = init_body\<rparr>))"
    by (simp add: g0_def object_prototype_keys_def)
  have 1: "prefix [Forwarded 0 (Some JNull)]
     (events (fst (post_mcp (\<lambda>b. b = init_body) (sdk_env ''s2'')
        \<lparr>session_header = Some ''s1'', body = JNull\<rparr> g_resumable)))"
    using post_mcp_three_cases [of "\<lparr>session_header = Some ''s1'', body = JNull\<rparr>" g_resumable
        "\<lambda>b. b = init_body" "sdk_env ''s2''"] a
    by (simp add: g_resumable_def)
  have 2: "prefix [Constructed 0]
     (events (fst (post_mcp (\<lambda>b. b = init_body) (sdk_env ''s1'')
        \<lparr>session_header = None, body = init_body\<rparr> g0)))"
    using post_mcp_three_cases [of "\<lparr>session_header = None, body = init_body\<rparr>" g0
        "\<lambda>b. b = init_body" "sdk_env ''s1''"] b b'
    by (simp add: g0_def)
  have 3: "post_mcp (\<lambda>b. b = init_body) (sdk_env ''s1'')
        \<lparr>session_header = Some ''s9'', body = init_body\<rparr> g0
       = (g0, \<lparr>headersSent = True, statusCode = 400,
             sent = Some (JsonBody (JObj
               [(''jsonrpc'', JStr ''2.0''),
                (''error'',
                 JObj [(''code'', JNum (- 32000)),
                       (''message'', JStr ''Bad Request: No valid session ID provided'')]),
                (''id'', JNull)]))\<rparr>)"
    using post_mcp_three_cases [of "\<lparr>session_header = Some ''s9'', body = init_body\<rparr>" g0
        "\<lambda>b. b = init_body" "sdk_env ''s1''"] c
    by blast
  from 1 2 3 show ?thesis by simp
qed

section \<open>Properties of GET /mcp and DELETE /mcp\<close>

text \<open>Where the header is missing, empty or names neither a session nor a member of
  \<^verbatim>\<open>Object.prototype\<close>, the answer is 400 with a plain-text message and the gateway is
  left as it was.\<close>

lemma handleSessionRequest_unknown:
  assumes "\<not> (\<exists>sid. session_header req = Some sid \<and> sid \<noteq> [] \<and>
              (transports g sid \<noteq> None \<or> sid \<in> set object_prototype_keys))"
  shows "handleSessionRequest run req g =
           ((g, status_send 400 ''Invalid or missing session ID'' fresh_response), None)"
  using assms
  by (cases "session_header req")
     (auto simp: handleSessionRequest_def Let_def get_transport_def split: option.splits)

text \<open>
  Claim C6 says that a GET or DELETE whose session-id header names no registered session
  is answered 400 with a plain-text message. At the header \<^verbatim>\<open>constructor\<close>, with no
  session registered, the guard \<^verbatim>\<open>!transports[sessionId]\<close> reads the inherited
  \<^verbatim>\<open>Object.prototype.constructor\<close>, lets the request through, and the call of
  \<^verbatim>\<open>handleRequest\<close> on it throws: no 400 is sent, for any behaviour of the channel. The
  registry is not changed.
\<close>

theorem handleSessionRequest_inherited_name:
  "handleSessionRequest run \<lparr>session_header = Some ''constructor'', body = b\<rparr> g0
     = ((g0, fresh_response), Some (ErrorObj ''transport.handleRequest is not a function''))"
  by (simp add: handleSessionRequest_def handleRequest_def get_transport_def
      object_prototype_keys_def g0_def)

theorem handleSessionRequest_inherited_name_witness:
  "handleSessionRequest quiet_run \<lparr>session_header = Some ''constructor'', body = JNull\<rparr> g0
     = ((g0, fresh_response), Some (ErrorObj ''transport.handleRequest is not a function''))"
  using handleSessionRequest_inherited_name [of quiet_run JNull] .

section \<open>Failures during POST /mcp\<close>

lemma handleRequest_logs:
  "logs (fst (fst (handleRequest tr run b st))) = logs (fst st)"
  by (cases tr)
     (simp_all add: handleRequest_def run_channel_def note_event_def foldl_chan_step_logs)

lemma create_channel_logs: "logs (fst (fst (create_channel env g))) = logs g"
  by (auto simp: create_channel_def Let_def run_channel_def note_event_def foldl_chan_step_logs
           split: option.splits prod.splits)

lemma post_try_logs: "logs (fst (fst (post_try is_init env req g))) = logs g"
proof (cases "classify is_init (transports g) req")
  case Resume
  then show ?thesis by (simp add: post_try_def handleRequest_logs)
next
  case Create
  obtain st out where cc: "create_channel env g = (st, out)"
    by (cases "create_channel env g")
  then have "logs (fst st) = logs g"
    using create_channel_logs [of env g] by simp
  then show ?thesis
    by (cases out) (simp_all add: post_try_def Create cc handleRequest_logs)
next
  case Reject
  then show ?thesis by (simp add: post_try_def)
qed

lemma post_catch_raised:
  "post_catch ((g1, res1), Some e) =
     (g1\<lparr>logs := logs g1 @ [LogError ''Error handling MCP request'' (error_text e)]\<rparr>,
      if headersSent res1 then res1 else status_json 500 internal_error_body res1)"
  by (simp add: post_catch_def Let_def)

lemma create_channel_raised:
  "(case snd (create_channel env g) of Inl e \<Rightarrow> Some e | Inr r \<Rightarrow> None) =
     (case construct_raises env of Some e \<Rightarrow> Some e | None \<Rightarrow>
      (case create_server_raises env of Some e \<Rightarrow> Some e | None \<Rightarrow> raised (connect_run env)))"
  by (auto simp: create_channel_def Let_def run_channel_def split: option.splits prod.splits)

lemma post_try_create_raised:
  assumes "classify is_init (transports g) req = Create"
  shows "snd (post_try is_init env req g) =
     (case construct_raises env of Some e \<Rightarrow> Some e | None \<Rightarrow>
      (case create_server_raises env of Some e \<Rightarrow> Some e | None \<Rightarrow>
      (case raised (connect_run env) of Some e \<Rightarrow> Some e | None \<Rightarrow> raised (handle_run env))))"
proof -
  obtain st out where cc: "create_channel env g = (st, out)"
    by (cases "create_channel env g")
  show ?thesis
    using create_channel_raised [of env g] cc assms
    by (cases out)
       (auto simp: post_try_def handleRequest_def run_channel_def split: option.splits)
qed

lemma post_try_resume_raised:
  assumes "session_header req = Some sid" "sid \<noteq> []" "transports g sid = Some r"
  shows "snd (post_try is_init env req g) = raised (handle_run env)"
proof -
  have "classify is_init (transports g) req = Resume"
    using assms by (auto simp: classify_resume)
  moreover have "get_transport (transports g) (the (session_header req)) = Transport r"
    using assms by (simp add: get_transport_def)
  ultimately show ?thesis
    by (simp add: post_try_def handleRequest_def run_channel_def)
qed

text \<open>
  Claim C7. Whatever is thrown while the channel is constructed, connected or handed the
  request reaches the catch block (third and fourth conjunct: the try block ends with the
  first throw of the stages it runs). Then the error is logged, and exactly when no
  response had begun the response is sent with status 500 and the JSON body
  \<^verbatim>\<open>{ jsonrpc: "2.0", error: { code: -32603, message: "Internal server error" }, id: null }\<close>;
  where one had begun it is left as it is (first conjunct). Without a throw nothing is
  logged and the response is the one the try block produced (second conjunct).
\<close>

theorem post_mcp_internal_error:
  "(\<forall>g1 res1 e. post_try is_init env req g = ((g1, res1), Some e) \<longrightarrow>
       post_mcp is_init env req g =
         (g1\<lparr>logs := logs g @ [LogError ''Error handling MCP request'' (error_text e)]\<rparr>,
          if headersSent res1 then res1 else res1\<lparr>headersSent := True, statusCode := 500,
             sent := Some (JsonBody (JObj
               [(''jsonrpc'', JStr ''2.0''),
                (''error'',
                 JObj [(''code'', JNum (- 32603)),
                       (''message'', JStr ''Internal server error'')]),
                (''id'', JNull)]))\<rparr>))
   \<and> (\<forall>st. post_try is_init env req g = (st, None) \<longrightarrow>
       post_mcp is_init env req g = st \<and> logs (fst st) = logs g)
   \<and> (classify is_init (transports g) req = Create \<longrightarrow>
       snd (post_try is_init env req g) =
         (case construct_raises env of Some e \<Rightarrow> Some e | None \<Rightarrow>
          (case create_server_raises env of Some e \<Rightarrow> Some e | None \<Rightarrow>
          (case raised (connect_run env) of Some e \<Rightarrow> Some e | None \<Rightarrow> raised (handle_run env)))))
   \<and> (\<forall>sid r. session_header req = Some sid \<and> sid \<noteq> [] \<and> transports g sid = Some r \<longrightarrow>
       snd (post_try is_init env req g) = raised (handle_run env))"
proof (rule conjI [OF _ conjI [OF _ conjI]])
  show "\<forall>g1 res1 e. post_try is_init env req g = ((g1, res1), Some e) \<longrightarrow>
       post_mcp is_init env req g =
         (g1\<lparr>logs := logs g @ [LogError ''Error handling MCP request'' (error_text e)]\<rparr>,
          if headersSent res1 then res1 else res1\<lparr>headersSent := True, statusCode := 500,
             sent := Some (JsonBody (JObj
               [(''jsonrpc'', JStr ''2.0''),
                (''error'',
                 JObj [(''code'', JNum (- 32603)),
                       (''message'', JStr ''Internal server error'')]),
                (''id'', JNull)]))\<rparr>)"
  proof (intro allI impI)
    fix g1 res1 e
    assume p: "post_try is_init env req g = ((g1, res1), Some e)"
    have "logs g1 = logs g"
      using post_try_logs [of is_init env req g] p by simp
    then show "post_mcp is_init env req g =
         (g1\<lparr>logs := logs g @ [LogError ''Error handling MCP request'' (error_text e)]\<rparr>,
          if headersSent res1 then res1 else res1\<lparr>headersSent := True, statusCode := 500,
             sent := Some (JsonBody (JObj
               [(''jsonrpc'', JStr ''2.0''),
                (''error'',
                 JObj [(''code'', JNum (- 32603)),
                       (''message'', JStr ''Internal server error'')]),
                (''id'', JNull)]))\<rparr>)"
      by (simp add: post_mcp_def p post_catch_raised status_json_def internal_error_body_def)
  qed
next
  show "\<forall>st. post_try is_init env req g = (st, None) \<longrightarrow>
       post_mcp is_init env req g = st \<and> logs (fst st) = logs g"
  proof (intro allI impI)
    fix st
    assume p: "post_try is_init env req g = (st, None)"
    have "logs (fst st) = logs g"
      using post_try_logs [of is_init env req g] p by simp
    then show "post_mcp is_init env req g = st \<and> logs (fst st) = logs g"
      by (simp add: post_mcp_def p post_catch_def)
  qed
next
  show "classify is_init (transports g) req = Create \<longrightarrow>
       snd (post_try is_init env req g) =
         (case construct_raises env of Some e \<Rightarrow> Some e | None \<Rightarrow>
          (case create_server_raises env of Some e \<Rightarrow> Some e | None \<Rightarrow>
          (case raised (connect_run env) of Some e \<Rightarrow> Some e | None \<Rightarrow> raised (handle_run env))))"
    using post_try_create_raised [of is_init g req env] by (rule impI)
next
  show "\<forall>sid r. session_header req = Some sid \<and> sid \<noteq> [] \<and> transports g sid = Some r \<longrightarrow>
       snd (post_try is_init env req g) = raised (handle_run env)"
    using post_try_resume_raised [of req _ g _ is_init env] by (intro allI impI) (elim conjE)
qed

theorem post_mcp_internal_error_witness:
  "post_mcp (\<lambda>b. b = init_body) failing_env \<lparr>session_header = None, body = init_body\<rparr> g0
     = (\<lparr>transports = Map.empty, created = 1,
         logs = [LogError ''Error handling MCP request'' ''stream broke''],
         events = [Constructed 0, Connected 0, Forwarded 0 (Some init_body)]\<rparr>,
        \<lparr>headersSent = True, statusCode = 200, sent = None\<rparr>)
   \<and> post_mcp (\<lambda>b. b = init_body) ((sdk_env ''s1'')\<lparr>construct_raises := Some (OtherValue ''boom'')\<rparr>)
        \<lparr>session_header = None, body = init_body\<rparr> g0
     = (g0\<lparr>logs := [LogError ''Error handling MCP request'' ''boom'']\<rparr>,
        \<lparr>headersSent = True, statusCode = 500,
             sent = Some (JsonBody (JObj
               [(''jsonrpc'', JStr ''2.0''),
                (''error'',
                 JObj [(''code'', JNum (- 32603)),
                       (''message'', JStr ''Internal server error'')]),
                (''id'', JNull)]))\<rparr>)"
proof -
  have p1: "post_try (\<lambda>b. b = init_body) failing_env
              \<lparr>session_header = None, body = init_body\<rparr> g0
            = ((\<lparr>transports = Map.empty, created = 1, logs = [],
                 events = [Constructed 0, Connected 0, Forwarded 0 (Some init_body)]\<rparr>,
                \<lparr>headersSent = True, statusCode = 200, sent = None\<rparr>),
               Some (ErrorObj ''stream broke''))"
    by (simp add: post_try_def classify_def create_channel_def handleRequest_def
        run_channel_def note_event_def failing_env_def quiet_run_def g0_def fresh_response_def)
  have p2: "post_try (\<lambda>b. b = init_body)
              ((sdk_env ''s1'')\<lparr>construct_raises := Some (OtherValue ''boom'')\<rparr>)
              \<lparr>session_header = None, body = init_body\<rparr> g0
            = ((g0, fresh_response), Some (OtherValue ''boom''))"
    by (simp add: post_try_def classify_def create_channel_def sdk_env_def g0_def)
  have 1: "post_mcp (\<lambda>b. b = init_body) failing_env \<lparr>session_header = None, body = init_body\<rparr> g0
     = (\<lparr>transports = Map.empty, created = 1,
         logs = [LogError ''Error handling MCP request'' ''stream broke''],
         events = [Constructed 0, Connected 0, Forwarded 0 (Some init_body)]\<rparr>,
        \<lparr>headersSent = True, statusCode = 200, sent = None\<rparr>)"
    using post_mcp_internal_error [of "\<lambda>b. b = init_body" failing_env
        "\<lparr>session_header = None, body = init_body\<rparr>" g0] p1
    by (simp add: g0_def)
  have 2: "post_mcp (\<lambda>b. b = init_body) ((sdk_env ''s1'')\<lparr>construct_raises := Some (OtherValue ''boom'')\<rparr>)
        \<lparr>session_header = None, body = init_body\<rparr> g0
     = (g0\<lparr>logs := [LogError ''Error handling MCP request'' ''boom'']\<rparr>,
        \<lparr>headersSent = True, statusCode = 500,
             sent = Some (JsonBody (JObj
               [(''jsonrpc'', JStr ''2.0''),
                (''error'',
                 JObj [(''code'', JNum (- 32603)),
                       (''message'', JStr ''Internal server error'')]),
                (''id'', JNull)]))\<rparr>)"
    using post_mcp_internal_error [of "\<lambda>b. b = init_body"
        "(sdk_env ''s1'')\<lparr>construct_raises := Some (OtherValue ''boom'')\<rparr>"
        "\<lparr>session_header = None, body = init_body\<rparr>" g0] p2
    by (simp add: g0_def fresh_response_def)
  from 1 2 show ?thesis by simp
qed

section \<open>The order of confirmation, registration and forwarding\<close>

lemma paired_append: "paired xs \<Longrightarrow> paired ys \<Longrightarrow> paired (xs @ ys)"
  by (induction xs rule: paired.induct) simp_all

lemma paired_action_events: "paired (concat (map (action_events r) as))"
proof (induction as)
  case Nil
  show ?case by simp
next
  case (Cons a as)
  then show ?case by (cases a) simp_all
qed

lemma chan_step_events_eq:
  "events (fst (chan_step r st a)) = events (fst st) @ action_events r a"
  by (cases st; cases a) (simp_all add: note_event_def)

lemma foldl_chan_step_events_eq:
  "events (fst (foldl (chan_step r) st as)) = events (fst st) @ concat (map (action_events r) as)"
  by (induction as arbitrary: st) (simp_all add: chan_step_events_eq)

lemma registered_in_action_events:
  "Registered sid r' \<in> set (concat (map (action_events r) as))
     \<longleftrightarrow> r' = r \<and> SessionInitialized sid \<in> set as"
proof (induction as)
  case Nil
  show ?case by simp
next
  case (Cons a as)
  then show ?case by (cases a) auto
qed

lemma forwarded_not_in_action_events:
  "Forwarded r' b \<notin> set (concat (map (action_events r) as))"
proof (induction as)
  case Nil
  show ?case by simp
next
  case (Cons a as)
  then show ?case by (cases a) auto
qed

lemma chan_step_transports:
  "transports (fst (chan_step r st a)) sid = Some r' \<Longrightarrow>
     transports (fst st) sid = Some r' \<or> (r' = r \<and> a = SessionInitialized sid)"
  by (cases st; cases a)
     (auto simp: note_event_def put_transport_def onclose_def remove_transport_def
           split: if_splits)

lemma foldl_chan_step_transports:
  "transports (fst (foldl (chan_step r) st as)) sid = Some r' \<Longrightarrow>
     transports (fst st) sid = Some r' \<or> (r' = r \<and> SessionInitialized sid \<in> set as)"
proof (induction as arbitrary: st)
  case Nil
  then show ?case by simp
next
  case (Cons a as)
  from Cons.IH [of "chan_step r st a"] Cons.prems
  have "transports (fst (chan_step r st a)) sid = Some r'
          \<or> (r' = r \<and> SessionInitialized sid \<in> set as)"
    by simp
  then show ?case
    using chan_step_transports [of r st a sid r'] by auto
qed

lemma onclose_other: "c \<noteq> Some sid \<Longrightarrow> onclose c t sid = t sid"
  by (cases c) (auto simp: onclose_def remove_transport_def)

lemma chan_step_keeps_entry:
  "transports (fst st) sid = Some r \<Longrightarrow> a \<noteq> Closed (Some sid) \<Longrightarrow>
     transports (fst (chan_step r st a)) sid = Some r"
  by (cases st; cases a)
     (auto simp: note_event_def put_transport_def onclose_other)

lemma foldl_chan_step_keeps_entry:
  "transports (fst st) sid = Some r \<Longrightarrow> Closed (Some sid) \<notin> set as \<Longrightarrow>
     transports (fst (foldl (chan_step r) st as)) sid = Some r"
proof (induction as arbitrary: st)
  case Nil
  then show ?case by simp
next
  case (Cons a as)
  have "transports (fst (chan_step r st a)) sid = Some r"
    using Cons.prems by (intro chan_step_keeps_entry) auto
  then show ?case using Cons.IH [of "chan_step r st a"] Cons.prems by simp
qed

lemma foldl_chan_step_registers:
  assumes "Closed (Some sid) \<notin> set bs"
  shows "transports (fst (foldl (chan_step r) st (as @ SessionInitialized sid # bs))) sid = Some r"
proof -
  obtain g res where s: "foldl (chan_step r) st as = (g, res)"
    by (cases "foldl (chan_step r) st as")
  have "transports (fst (chan_step r (g, res) (SessionInitialized sid))) sid = Some r"
    by (simp add: note_event_def put_transport_def)
  then show ?thesis
    using foldl_chan_step_keeps_entry [OF _ assms] by (simp add: s)
qed


lemma occurs_before_absent: "b \<notin> set xs \<Longrightarrow> \<not> occurs_before a b xs"
  by (simp add: occurs_before_def)

lemma occurs_before_split:
  "b \<notin> set pre \<Longrightarrow> occurs_before a b (pre @ b # post) = (a \<in> set pre)"
proof -
  assume n: "b \<notin> set pre"
  have "takeWhile (\<lambda>x. x \<noteq> b) (pre @ b # post) = pre"
    using n by (induction pre) auto
  then show ?thesis by (simp add: occurs_before_def)
qed

lemma paired_create_prefix:
  "paired (Constructed r # Connected r # concat (map (action_events r) as))"
  by (simp add: paired_action_events)

lemma paired_create_path:
  "paired (Constructed r # Connected r # concat (map (action_events r) as)
           @ Forwarded r b # concat (map (action_events r) bs))"
proof -
  have "paired (Forwarded r b # concat (map (action_events r) bs))"
    by (simp add: paired_action_events)
  from paired_append [OF paired_create_prefix this] show ?thesis by simp
qed

text \<open>The create branch, stage by stage.\<close>

lemma create_channel_construct_raises:
  "construct_raises env = Some e \<Longrightarrow> create_channel env g = ((g, fresh_response), Inl e)"
  by (simp add: create_channel_def)

lemma create_channel_server_raises:
  "construct_raises env = None \<Longrightarrow> create_server_raises env = Some e \<Longrightarrow>
   create_channel env g =
     ((note_event (Constructed (created g)) (g\<lparr>created := Suc (created g)\<rparr>), fresh_response), Inl e)"
  by (simp add: create_channel_def Let_def)

lemma create_channel_connect:
  "construct_raises env = None \<Longrightarrow> create_server_raises env = None \<Longrightarrow>
   create_channel env g =
     (foldl (chan_step (created g))
        (note_event (Connected (created g))
           (note_event (Constructed (created g)) (g\<lparr>created := Suc (created g)\<rparr>)), fresh_response)
        (actions (connect_run env)),
      case raised (connect_run env) of Some e \<Rightarrow> Inl e | None \<Rightarrow> Inr (created g))"
  by (simp add: create_channel_def Let_def run_channel_def split: option.splits)


lemma post_try_create:
  assumes "classify is_init (transports g) req = Create"
  shows "post_try is_init env req g =
     (case construct_raises env of
        Some e \<Rightarrow> ((g, fresh_response), Some e)
      | None \<Rightarrow>
         (case create_server_raises env of
            Some e \<Rightarrow>
              ((note_event (Constructed (created g)) (g\<lparr>created := Suc (created g)\<rparr>),
                fresh_response), Some e)
          | None \<Rightarrow>
             (let st = foldl (chan_step (created g))
                        (note_event (Connected (created g))
                           (note_event (Constructed (created g)) (g\<lparr>created := Suc (created g)\<rparr>)),
                         fresh_response)
                        (actions (connect_run env))
              in case raised (connect_run env) of
                   Some e \<Rightarrow> (st, Some e)
                 | None \<Rightarrow>
                     (foldl (chan_step (created g))
                        (note_event (Forwarded (created g) (Some (body req))) (fst st), snd st)
                        (actions (handle_run env)),
                      raised (handle_run env)))))"
proof (cases "construct_raises env")
  case (Some e)
  then show ?thesis
    by (simp add: post_try_def assms create_channel_construct_raises)
next
  case None
  note c = this
  show ?thesis
  proof (cases "create_server_raises env")
    case (Some e)
    then show ?thesis
      by (simp add: post_try_def assms c create_channel_server_raises)
  next
    case None
    then show ?thesis
      by (cases "raised (connect_run env)")
         (simp_all add: post_try_def assms c create_channel_connect Let_def
            handleRequest_def run_channel_def)
  qed
qed

lemma post_mcp_create_events:
  assumes "classify is_init (transports g) req = Create"
  shows "events (fst (post_mcp is_init env req g))
           = events g @ create_path_events env (created g) (body req)"
  by (simp add: post_mcp_def post_catch_events post_try_create [OF assms] Let_def
        create_path_events_def note_event_def foldl_chan_step_events_eq
      split: option.splits)

lemma paired_create_path_events: "paired (create_path_events env r b)"
  using paired_create_path [of r "actions (connect_run env)" "Some b" "actions (handle_run env)"]
    paired_create_prefix [of r "actions (connect_run env)"]
  by (simp add: create_path_events_def split: option.splits)

lemma registered_create_path_events:
  "Registered sid r' \<in> set (create_path_events env r b) \<longleftrightarrow>
     r' = r \<and> construct_raises env = None \<and> create_server_raises env = None \<and>
     (SessionInitialized sid \<in> set (actions (connect_run env))
      \<or> raised (connect_run env) = None \<and> SessionInitialized sid \<in> set (actions (handle_run env)))"
  by (cases "construct_raises env"; cases "create_server_raises env";
      cases "raised (connect_run env)")
     (auto simp add: create_path_events_def registered_in_action_events simp del: set_concat)

lemma post_mcp_create_transports:
  assumes "classify is_init (transports g) req = Create"
    and "transports (fst (post_mcp is_init env req g)) sid = Some r'"
  shows "transports g sid = Some r'
         \<or> Registered sid r' \<in> set (create_path_events env (created g) (body req))"
proof (cases "construct_raises env")
  case (Some e)
  then show ?thesis
    using assms(2) by (simp add: post_mcp_def post_catch_transports post_try_create [OF assms(1)])
next
  case None
  note c = this
  show ?thesis
  proof (cases "create_server_raises env")
    case (Some e)
    then show ?thesis
      using assms(2)
      by (simp add: post_mcp_def post_catch_transports post_try_create [OF assms(1)] c
            note_event_def)
  next
    case None
    note d = this
    let ?st = "foldl (chan_step (created g))
                (note_event (Connected (created g))
                   (note_event (Constructed (created g)) (g\<lparr>created := Suc (created g)\<rparr>)),
                 fresh_response)
                (actions (connect_run env))"
    have conn: "transports (fst ?st) sid = Some r' \<Longrightarrow>
        transports g sid = Some r'
        \<or> (r' = created g \<and> SessionInitialized sid \<in> set (actions (connect_run env)))"
      using foldl_chan_step_transports [of "created g" _ "actions (connect_run env)" sid r']
      by (fastforce simp: note_event_def)
    show ?thesis
    proof (cases "raised (connect_run env)")
      case (Some e)
      then have "transports (fst ?st) sid = Some r'"
        using assms(2)
        by (simp add: post_mcp_def post_catch_transports post_try_create [OF assms(1)] c d Let_def)
      from conn [OF this] show ?thesis
        by (auto simp: registered_create_path_events c d)
    next
      case None
      then have "transports (fst (foldl (chan_step (created g))
                        (note_event (Forwarded (created g) (Some (body req))) (fst ?st), snd ?st)
                        (actions (handle_run env)))) sid = Some r'"
        using assms(2)
        by (simp add: post_mcp_def post_catch_transports post_try_create [OF assms(1)] c d Let_def)
      then have "transports (fst ?st) sid = Some r'
          \<or> (r' = created g \<and> SessionInitialized sid \<in> set (actions (handle_run env)))"
        using foldl_chan_step_transports [of "created g" _ "actions (handle_run env)" sid r']
        by (fastforce simp: note_event_def)
      with conn show ?thesis
        by (auto simp: registered_create_path_events c d None)
    qed
  qed
qed


lemma no_registration_before_forward:
  assumes "\<forall>sid. SessionInitialized sid \<notin> set (actions (connect_run env))"
  shows "\<not> occurs_before (Registered sid r') (Forwarded r (Some b)) (create_path_events env r b)"
proof (cases "construct_raises env = None \<and> create_server_raises env = None
              \<and> raised (connect_run env) = None")
  case True
  let ?pre = "Constructed r # Connected r # concat (map (action_events r) (actions (connect_run env)))"
  let ?post = "concat (map (action_events r) (actions (handle_run env)))"
  have l: "create_path_events env r b = ?pre @ Forwarded r (Some b) # ?post"
    using True by (simp add: create_path_events_def)
  have n: "Forwarded r (Some b) \<notin> set ?pre"
    using forwarded_not_in_action_events [of r "Some b" r "actions (connect_run env)"]
    by (simp del: set_concat)
  have "Registered sid r' \<notin> set ?pre"
    using assms by (simp add: registered_in_action_events del: set_concat)
  then show ?thesis
    by (simp only: l occurs_before_split [OF n] not_False_eq_True)
next
  case False
  have "Forwarded r (Some b) \<notin> set (create_path_events env r b)"
    using False forwarded_not_in_action_events [of r "Some b" r "actions (connect_run env)"]
    by (auto simp add: create_path_events_def simp del: set_concat split: option.splits)
  then show ?thesis by (rule occurs_before_absent)
qed

lemma forwarded_in_create_path_events:
  "construct_raises env = None \<Longrightarrow> create_server_raises env = None \<Longrightarrow>
   raised (connect_run env) = None \<Longrightarrow>
   Forwarded r (Some b) \<in> set (create_path_events env r b)"
  by (simp add: create_path_events_def)

lemma post_mcp_create_registers:
  assumes "classify is_init (transports g) req = Create"
    and "construct_raises env = None" "create_server_raises env = None"
    and "raised (connect_run env) = None"
    and "actions (handle_run env) = as @ SessionInitialized sid # bs"
    and "Closed (Some sid) \<notin> set bs"
  shows "transports (fst (post_mcp is_init env req g)) sid = Some (created g)"
  using foldl_chan_step_registers [OF assms(6), of "created g" _ as]
  by (simp add: post_mcp_def post_catch_transports post_try_create [OF assms(1)] assms(2-5) Let_def)

lemma registered_is_resumed:
  "t sid = Some r \<Longrightarrow> sid \<noteq> [] \<Longrightarrow>
   classify is_init t \<lparr>session_header = Some sid, body = b\<rparr> = Resume"
  by (simp add: classify_resume)

text \<open>
  Claim C3, as amended. On the new-session branch of POST /mcp the gateway writes the
  registry only inside the \<^verbatim>\<open>onsessioninitialized\<close> callback: in the events the request
  adds, every registration directly follows the channel's confirmation of that id, and
  every entry of the final registry that was not there before was written by such a
  registration. The gateway does not wait for it before it hands over the body: unless
  the channel confirmed an id already while connecting, no registration precedes the
  forwarding of the triggering body. When the channel confirms an id while it handles
  that body, and does not close that session afterwards, the body has been forwarded, the
  id is registered for the new channel when the request is done, and a later request
  carrying the id is a resume.
\<close>

theorem create_path_registration_order:
  assumes "classify is_init (transports g) req = Create"
  shows "\<exists>new. events (fst (post_mcp is_init env req g)) = events g @ new
     \<and> paired new
     \<and> (\<forall>sid r. transports (fst (post_mcp is_init env req g)) sid = Some r \<longrightarrow>
           transports g sid = Some r \<or> Registered sid r \<in> set new)
     \<and> ((\<forall>sid. SessionInitialized sid \<notin> set (actions (connect_run env))) \<longrightarrow>
           (\<forall>sid r. \<not> occurs_before (Registered sid r)
                        (Forwarded (created g) (Some (body req))) new))
     \<and> (\<forall>sid as bs. construct_raises env = None \<and> create_server_raises env = None
           \<and> raised (connect_run env) = None
           \<and> actions (handle_run env) = as @ SessionInitialized sid # bs
           \<and> Closed (Some sid) \<notin> set bs \<longrightarrow>
           Forwarded (created g) (Some (body req)) \<in> set new
           \<and> transports (fst (post_mcp is_init env req g)) sid = Some (created g)
           \<and> (sid \<noteq> [] \<longrightarrow>
                 (\<forall>is_init' b. classify is_init' (transports (fst (post_mcp is_init env req g)))
                      \<lparr>session_header = Some sid, body = b\<rparr> = Resume)))"
proof (intro exI [of _ "create_path_events env (created g) (body req)"] conjI)
  show "events (fst (post_mcp is_init env req g))
          = events g @ create_path_events env (created g) (body req)"
    by (rule post_mcp_create_events [OF assms])
  show "paired (create_path_events env (created g) (body req))"
    by (rule paired_create_path_events)
  show "\<forall>sid r. transports (fst (post_mcp is_init env req g)) sid = Some r \<longrightarrow>
           transports g sid = Some r
           \<or> Registered sid r \<in> set (create_path_events env (created g) (body req))"
    using post_mcp_create_transports [OF assms] by (intro allI impI)
  show "(\<forall>sid. SessionInitialized sid \<notin> set (actions (connect_run env))) \<longrightarrow>
           (\<forall>sid r. \<not> occurs_before (Registered sid r)
                        (Forwarded (created g) (Some (body req)))
                        (create_path_events env (created g) (body req)))"
    using no_registration_before_forward by (intro allI impI)
  show "\<forall>sid as bs. construct_raises env = None \<and> create_server_raises env = None
           \<and> raised (connect_run env) = None
           \<and> actions (handle_run env) = as @ SessionInitialized sid # bs
           \<and> Closed (Some sid) \<notin> set bs \<longrightarrow>
           Forwarded (created g) (Some (body req))
             \<in> set (create_path_events env (created g) (body req))
           \<and> transports (fst (post_mcp is_init env req g)) sid = Some (created g)
           \<and> (sid \<noteq> [] \<longrightarrow>
                 (\<forall>is_init' b. classify is_init' (transports (fst (post_mcp is_init env req g)))
                      \<lparr>session_header = Some sid, body = b\<rparr> = Resume))"
  proof (intro allI impI, elim conjE)
    fix sid as bs
    assume h: "construct_raises env = None" "create_server_raises env = None"
      "raised (connect_run env) = None"
      "actions (handle_run env) = as @ SessionInitialized sid # bs"
      "Closed (Some sid) \<notin> set bs"
    have t: "transports (fst (post_mcp is_init env req g)) sid = Some (created g)"
      by (rule post_mcp_create_registers [OF assms h])
    have f: "Forwarded (created g) (Some (body req))
             \<in> set (create_path_events env (created g) (body req))"
      by (rule forwarded_in_create_path_events [OF h(1-3)])
    have "sid \<noteq> [] \<longrightarrow>
                 (\<forall>is_init' b. classify is_init' (transports (fst (post_mcp is_init env req g)))
                      \<lparr>session_header = Some sid, body = b\<rparr> = Resume)"
      using registered_is_resumed [of "transports (fst (post_mcp is_init env req g))" sid "created g"] t
      by (intro allI impI)
    with t f show "Forwarded (created g) (Some (body req))
             \<in> set (create_path_events env (created g) (body req))
           \<and> transports (fst (post_mcp is_init env req g)) sid = Some (created g)
           \<and> (sid \<noteq> [] \<longrightarrow>
                 (\<forall>is_init' b. classify is_init' (transports (fst (post_mcp is_init env req g)))
                      \<lparr>session_header = Some sid, body = b\<rparr> = Resume))"
      by (intro conjI)
  qed
qed

theorem create_path_registration_order_witness:
  "classify (\<lambda>b. b = init_body) (transports g0) \<lparr>session_header = None, body = init_body\<rparr> = Create
   \<and> transports (fst (post_mcp (\<lambda>b. b = init_body) (sdk_env ''s1'')
         \<lparr>session_header = None, body = init_body\<rparr> g0)) ''s1'' = Some 0
   \<and> classify (\<lambda>b. b = init_body)
        (transports (fst (post_mcp (\<lambda>b. b = init_body) (sdk_env ''s1'')
           \<lparr>session_header = None, body = init_body\<rparr> g0)))
        \<lparr>session_header = Some ''s1'', body = JNull\<rparr> = Resume"
proof -
  have c: "classify (\<lambda>b. b = init_body) (transports g0)
             \<lparr>session_header = None, body = init_body\<rparr> = Create"
    by (simp add: classify_def)
  have h: "construct_raises (sdk_env ''s1'') = None \<and> create_server_raises (sdk_env ''s1'') = None
      \<and> raised (connect_run (sdk_env ''s1'')) = None
      \<and> actions (handle_run (sdk_env ''s1'')) = [] @ SessionInitialized ''s1'' # [WriteHead 200]
      \<and> Closed (Some ''s1'') \<notin> set [WriteHead 200]"
    by (simp add: sdk_env_def quiet_run_def)
  from create_path_registration_order [OF c, of "sdk_env ''s1''"] h
  have "transports (fst (post_mcp (\<lambda>b. b = init_body) (sdk_env ''s1'')
         \<lparr>session_header = None, body = init_body\<rparr> g0)) ''s1'' = Some (created g0)
     \<and> (''s1'' \<noteq> [] \<longrightarrow>
          (\<forall>is_init' b. classify is_init'
             (transports (fst (post_mcp (\<lambda>b. b = init_body) (sdk_env ''s1'')
                \<lparr>session_header = None, body = init_body\<rparr> g0)))
             \<lparr>session_header = Some ''s1'', body = b\<rparr> = Resume))"
    by blast
  with c show ?thesis by (simp add: g0_def)
qed

text \<open>
  The claim C3 as stated fails on the code: with an SDK that confirms the id while it
  handles the initialization request, the body is forwarded first, and the id is
  confirmed and registered after that; when the gateway hands the body over, the registry
  has no entry for the id.
\<close>

theorem create_path_forwards_before_registration:
  "events (fst (post_mcp (\<lambda>b. b = init_body) (sdk_env ''s1'')
       \<lparr>session_header = None, body = init_body\<rparr> g0))
     = [Constructed 0, Connected 0, Forwarded 0 (Some init_body),
        Confirmed 0 ''s1'', Registered ''s1'' 0]
   \<and> \<not> occurs_before (Registered ''s1'' 0) (Forwarded 0 (Some init_body))
        [Constructed 0, Connected 0, Forwarded 0 (Some init_body),
         Confirmed 0 ''s1'', Registered ''s1'' 0]
   \<and> occurs_before (Forwarded 0 (Some init_body)) (Confirmed 0 ''s1'')
        [Constructed 0, Connected 0, Forwarded 0 (Some init_body),
         Confirmed 0 ''s1'', Registered ''s1'' 0]
   \<and> transports (fst (fst (create_channel (sdk_env ''s1'') g0))) ''s1'' = None"
  by (simp add: post_mcp_def post_try_def post_catch_def classify_def create_channel_def
      handleRequest_def run_channel_def note_event_def get_transport_def
      put_transport_def occurs_before_def
      sdk_env_def quiet_run_def g0_def fresh_response_def init_body_def)

section \<open>The request the tool sends\<close>

text \<open>Every run of the handler sends exactly one request, with the parameters
  \<^verbatim>\<open>searchProducts\<close> builds from the handler's \<^verbatim>\<open>searchOptions\<close>.\<close>

lemma calls_log_line: "calls (log_line e w) = calls w"
  by (simp add: log_line_def)

lemma googleShoppingSSearch_calls:
  "calls (snd (googleShoppingSSearch http apiKey ps w)) =
     calls w @ [\<lparr>url = baseUrl, engine = ''google_shopping'', api_key = apiKey, params = ps,
                 timeout = 30000, user_agent = ''MCP-SearchAPI-Server/1.0.0''\<rparr>]"
  by (simp add: googleShoppingSSearch_def Let_def log_line_def service_catch_def
      split: sum.splits)

lemma handler_try_calls:
  "calls (snd (handler_try nts http apiKey a w)) =
     calls w @ [\<lparr>url = baseUrl, engine = ''google_shopping'', api_key = apiKey,
                 params = searchParams (query a) (searchOptions a),
                 timeout = 30000, user_agent = ''MCP-SearchAPI-Server/1.0.0''\<rparr>]"
proof -
  let ?w1 = "log_line (LogInfo ''Processing Google Shopping search request'') w"
  obtain res w' where g: "googleShoppingSSearch http apiKey
      (searchParams (query a) (searchOptions a)) ?w1 = (res, w')"
    by (cases "googleShoppingSSearch http apiKey (searchParams (query a) (searchOptions a)) ?w1")
  have "calls w' = calls w @ [\<lparr>url = baseUrl, engine = ''google_shopping'', api_key = apiKey,
                 params = searchParams (query a) (searchOptions a),
                 timeout = 30000, user_agent = ''MCP-SearchAPI-Server/1.0.0''\<rparr>]"
    using googleShoppingSSearch_calls [of http apiKey "searchParams (query a) (searchOptions a)" ?w1] g
    by (simp add: calls_log_line)
  then show ?thesis
    by (cases res)
       (simp_all add: handler_try_def Let_def searchProducts_def searchProductsWithMetadata_def g)
qed

lemma tool_handler_calls:
  "calls (snd (tool_handler nts http apiKey a w)) =
     calls w @ [\<lparr>url = baseUrl, engine = ''google_shopping'', api_key = apiKey,
                 params = searchParams (query a) (searchOptions a),
                 timeout = 30000, user_agent = ''MCP-SearchAPI-Server/1.0.0''\<rparr>]"
proof -
  obtain res w' where h: "handler_try nts http apiKey a w = (res, w')"
    by (cases "handler_try nts http apiKey a w")
  then show ?thesis
    using handler_try_calls [of nts http apiKey a w]
    by (cases res) (simp_all add: tool_handler_def calls_log_line)
qed

lemma outbound_params:
  "params (last (calls (snd (tool_handler nts http apiKey a w))))
     = searchParams (query a) (searchOptions a)"
  by (simp add: tool_handler_calls)

lemma searchParams_searchOptions:
  "searchParams (query a) (searchOptions a) =
     \<lparr>gl = Some (or_str (country a) ''us''),
      hl = Some (or_str (language a) ''en''),
      location_p = Some (or_str (location a) ''United States''),
      start = None,
      num = Some (or_num (maxResults a) 10),
      tbm = None, tbs = None, safe = None, nfpr = None, filter_p = None,
      q = query a\<rparr>"
  by (simp add: searchParams_def searchOptions_def spread_def)

text \<open>
  Claim C8, as amended. The request to the search API carries country code "us",
  language code "en", location "United States" and result count 10 whenever the caller
  omits the corresponding option, and an option the caller supplies with a non-empty
  string, or a non-zero number, is carried as supplied.
\<close>

theorem outbound_defaults:
  "(country a = None \<longrightarrow>
      gl (params (last (calls (snd (tool_handler nts http apiKey a w))))) = Some ''us'')
   \<and> (language a = None \<longrightarrow>
      hl (params (last (calls (snd (tool_handler nts http apiKey a w))))) = Some ''en'')
   \<and> (location a = None \<longrightarrow>
      location_p (params (last (calls (snd (tool_handler nts http apiKey a w)))))
        = Some ''United States'')
   \<and> (maxResults a = None \<longrightarrow>
      num (params (last (calls (snd (tool_handler nts http apiKey a w))))) = Some 10)
   \<and> (\<forall>c. country a = Some c \<and> c \<noteq> [] \<longrightarrow>
      gl (params (last (calls (snd (tool_handler nts http apiKey a w))))) = Some c)
   \<and> (\<forall>l. language a = Some l \<and> l \<noteq> [] \<longrightarrow>
      hl (params (last (calls (snd (tool_handler nts http apiKey a w))))) = Some l)
   \<and> (\<forall>l. location a = Some l \<and> l \<noteq> [] \<longrightarrow>
      location_p (params (last (calls (snd (tool_handler nts http apiKey a w))))) = Some l)
   \<and> (\<forall>n. maxResults a = Some n \<and> n \<noteq> 0 \<longrightarrow>
      num (params (last (calls (snd (tool_handler nts http apiKey a w))))) = Some n)"
  by (simp add: outbound_params searchParams_searchOptions or_str_def or_num_def)

theorem outbound_defaults_witness:
  "gl (params (last (calls (snd (tool_handler whole_number_text http_down ''key''
        (plain_args ''wireless headphones'') w0))))) = Some ''us''
   \<and> num (params (last (calls (snd (tool_handler whole_number_text http_down ''key''
        (plain_args ''wireless headphones'') w0))))) = Some 10
   \<and> num (params (last (calls (snd (tool_handler whole_number_text http_down ''key''
        ((plain_args ''wireless headphones'')\<lparr>maxResults := Some 5, country := Some ''uk''\<rparr>) w0)))))
       = Some 5
   \<and> gl (params (last (calls (snd (tool_handler whole_number_text http_down ''key''
        ((plain_args ''wireless headphones'')\<lparr>maxResults := Some 5, country := Some ''uk''\<rparr>) w0)))))
       = Some ''uk''"
  using outbound_defaults [of "plain_args ''wireless headphones''" whole_number_text http_down "''key''" w0]
    outbound_defaults [of "(plain_args ''wireless headphones'')\<lparr>maxResults := Some 5, country := Some ''uk''\<rparr>"
      whole_number_text http_down "''key''" w0]
  by (simp add: plain_args_def)

text \<open>
  The claim C8 as stated fails on the code: a caller who supplies \<^verbatim>\<open>maxResults: 0\<close> and
  \<^verbatim>\<open>country: ""\<close> does not override the defaults.
\<close>

theorem explicit_falsy_option_not_forwarded:
  "num (params (last (calls (snd (tool_handler whole_number_text http_down ''key''
        ((plain_args ''laptop'')\<lparr>maxResults := Some 0, country := Some []\<rparr>) w0)))))
     \<noteq> Some 0
   \<and> gl (params (last (calls (snd (tool_handler whole_number_text http_down ''key''
        ((plain_args ''laptop'')\<lparr>maxResults := Some 0, country := Some []\<rparr>) w0)))))
     \<noteq> Some []"
  by (simp add: outbound_params searchParams_def searchOptions_def spread_def or_str_def
      or_num_def plain_args_def)

text \<open>
  Claim C10. With \<^verbatim>\<open>maxResults = 0\<close> the request carries result count 10, and an
  empty-string location, country or language is replaced by its default.
\<close>

theorem falsy_options_defaulted:
  "(maxResults a = Some 0 \<longrightarrow>
      num (params (last (calls (snd (tool_handler nts http apiKey a w))))) = Some 10)
   \<and> (location a = Some [] \<longrightarrow>
      location_p (params (last (calls (snd (tool_handler nts http apiKey a w)))))
        = Some ''United States'')
   \<and> (country a = Some [] \<longrightarrow>
      gl (params (last (calls (snd (tool_handler nts http apiKey a w))))) = Some ''us'')
   \<and> (language a = Some [] \<longrightarrow>
      hl (params (last (calls (snd (tool_handler nts http apiKey a w))))) = Some ''en'')"
  by (simp add: outbound_params searchParams_searchOptions or_str_def or_num_def)

theorem falsy_options_defaulted_witness:
  "num (params (last (calls (snd (tool_handler whole_number_text http_down ''key''
        \<lparr>query = ''tv'', location = Some [], country = Some [], language = Some [],
         maxResults = Some 0, includeMetadata = None\<rparr> w0))))) = Some 10
   \<and> location_p (params (last (calls (snd (tool_handler whole_number_text http_down ''key''
        \<lparr>query = ''tv'', location = Some [], country = Some [], language = Some [],
         maxResults = Some 0, includeMetadata = None\<rparr> w0))))) = Some ''United States''
   \<and> gl (params (last (calls (snd (tool_handler whole_number_text http_down ''key''
        \<lparr>query = ''tv'', location = Some [], country = Some [], language = Some [],
         maxResults = Some 0, includeMetadata = None\<rparr> w0))))) = Some ''us''
   \<and> hl (params (last (calls (snd (tool_handler whole_number_text http_down ''key''
        \<lparr>query = ''tv'', location = Some [], country = Some [], language = Some [],
         maxResults = Some 0, includeMetadata = None\<rparr> w0))))) = Some ''en''"
  using falsy_options_defaulted [of "\<lparr>query = ''tv'', location = Some [], country = Some [],
      language = Some [], maxResults = Some 0, includeMetadata = None\<rparr>"
      whole_number_text http_down "''key''" w0]
  by simp

section \<open>Failures of the search service\<close>

lemma googleShoppingSSearch_failure:
  assumes "http (length (calls w))
             \<lparr>url = baseUrl, engine = ''google_shopping'', api_key = apiKey, params = ps,
              timeout = 30000, user_agent = ''MCP-SearchAPI-Server/1.0.0''\<rparr> = Inl f"
  shows "fst (googleShoppingSSearch http apiKey ps w) = Inl (service_error f)"
  using assms by (simp add: googleShoppingSSearch_def Let_def service_catch_def)

lemma searchProducts_failure:
  "fst (searchProducts http apiKey qry options w) = Inl e \<longleftrightarrow>
   fst (googleShoppingSSearch http apiKey (searchParams qry options) w) = Inl e"
  by (cases "googleShoppingSSearch http apiKey (searchParams qry options) w")
     (auto simp: searchProducts_def split: sum.splits)

lemma handler_try_failure:
  "fst (handler_try nts http apiKey a w) = Inl e \<longleftrightarrow>
   fst (googleShoppingSSearch http apiKey (searchParams (query a) (searchOptions a))
          (log_line (LogInfo ''Processing Google Shopping search request'') w)) = Inl e"
  by (cases "googleShoppingSSearch http apiKey (searchParams (query a) (searchOptions a))
          (log_line (LogInfo ''Processing Google Shopping search request'') w)")
     (auto simp: handler_try_def Let_def searchProducts_def searchProductsWithMetadata_def
           split: sum.splits)

lemma tool_handler_failure:
  "fst (handler_try nts http apiKey a w) = Inl e \<Longrightarrow>
   fst (tool_handler nts http apiKey a w)
     = Inl (ErrorObj (''Google Shopping search failed: '' @ error_text e))"
  by (cases "handler_try nts http apiKey a w") (simp add: tool_handler_def)

lemma tool_handler_isl:
  "isl (fst (tool_handler nts http apiKey a w)) = isl (fst (handler_try nts http apiKey a w))"
  by (cases "handler_try nts http apiKey a w")
     (auto simp: tool_handler_def split: sum.splits)

lemma handler_try_isl:
  "isl (fst (handler_try nts http apiKey a w)) =
   isl (fst (googleShoppingSSearch http apiKey (searchParams (query a) (searchOptions a))
          (log_line (LogInfo ''Processing Google Shopping search request'') w)))"
  by (cases "googleShoppingSSearch http apiKey (searchParams (query a) (searchOptions a))
          (log_line (LogInfo ''Processing Google Shopping search request'') w)")
     (auto simp: handler_try_def Let_def searchProducts_def searchProductsWithMetadata_def
           split: sum.splits)

text \<open>End to end: what the agent reads for each failure of the HTTP call.\<close>

lemma tool_handler_http_failure:
  assumes "http (length (calls w))
             \<lparr>url = baseUrl, engine = ''google_shopping'', api_key = apiKey,
              params = searchParams (query a) (searchOptions a),
              timeout = 30000, user_agent = ''MCP-SearchAPI-Server/1.0.0''\<rparr> = Inl f"
  shows "fst (tool_handler nts http apiKey a w)
     = Inl (ErrorObj (''Google Shopping search failed: '' @ error_text (service_error f)))"
proof -
  have "fst (googleShoppingSSearch http apiKey (searchParams (query a) (searchOptions a))
          (log_line (LogInfo ''Processing Google Shopping search request'') w))
        = Inl (service_error f)"
    using assms by (intro googleShoppingSSearch_failure) (simp add: calls_log_line)
  then show ?thesis
    by (intro tool_handler_failure) (simp add: handler_try_failure)
qed

text \<open>
  Claim C4. Whatever the search service throws during a tool call, the handler catches
  and throws again as an error whose message is "Google Shopping search failed: "
  followed by the message of what the service threw (first and second conjunct, one for
  each of the two service methods the handler may call), so that message is in it
  verbatim (third conjunct). The handler ends with an error exactly when the service
  does: it suppresses none. It sends one request in all: it does not retry.
\<close>

theorem collaborator_failure_reraised:
  "(includeMetadata a = Some True \<longrightarrow>
      (\<forall>e. fst (searchProductsWithMetadata http apiKey (query a) (searchOptions a)
                  (log_line (LogInfo ''Processing Google Shopping search request'') w)) = Inl e \<longrightarrow>
           fst (tool_handler nts http apiKey a w)
             = Inl (ErrorObj (''Google Shopping search failed: '' @ error_text e))))
   \<and> (includeMetadata a \<noteq> Some True \<longrightarrow>
      (\<forall>e. fst (searchProducts http apiKey (query a) (searchOptions a)
                  (log_line (LogInfo ''Processing Google Shopping search request'') w)) = Inl e \<longrightarrow>
           fst (tool_handler nts http apiKey a w)
             = Inl (ErrorObj (''Google Shopping search failed: '' @ error_text e))))
   \<and> (\<forall>e. sublist (error_text e) (''Google Shopping search failed: '' @ error_text e))
   \<and> isl (fst (tool_handler nts http apiKey a w))
       = isl (fst (googleShoppingSSearch http apiKey (searchParams (query a) (searchOptions a))
                (log_line (LogInfo ''Processing Google Shopping search request'') w)))
   \<and> length (calls (snd (tool_handler nts http apiKey a w))) = Suc (length (calls w))"
proof (intro conjI impI allI)
  fix e
  assume "fst (searchProductsWithMetadata http apiKey (query a) (searchOptions a)
                 (log_line (LogInfo ''Processing Google Shopping search request'') w)) = Inl e"
  then show "fst (tool_handler nts http apiKey a w)
             = Inl (ErrorObj (''Google Shopping search failed: '' @ error_text e))"
    by (intro tool_handler_failure) (simp add: handler_try_failure searchProductsWithMetadata_def)
next
  fix e
  assume "fst (searchProducts http apiKey (query a) (searchOptions a)
                 (log_line (LogInfo ''Processing Google Shopping search request'') w)) = Inl e"
  then show "fst (tool_handler nts http apiKey a w)
             = Inl (ErrorObj (''Google Shopping search failed: '' @ error_text e))"
    by (intro tool_handler_failure) (simp add: handler_try_failure searchProducts_failure)
next
  fix e
  show "sublist (error_text e) (''Google Shopping search failed: '' @ error_text e)"
    by (rule sublist_append_leftI)
next
  show "isl (fst (tool_handler nts http apiKey a w))
       = isl (fst (googleShoppingSSearch http apiKey (searchParams (query a) (searchOptions a))
                (log_line (LogInfo ''Processing Google Shopping search request'') w)))"
    by (simp only: tool_handler_isl handler_try_isl)
next
  show "length (calls (snd (tool_handler nts http apiKey a w))) = Suc (length (calls w))"
    by (simp add: tool_handler_calls)
qed

theorem collaborator_failure_reraised_witness:
  "fst (tool_handler whole_number_text http_down ''key'' (plain_args ''tv'') w0)
     = Inl (ErrorObj
        ''Google Shopping search failed: SearchAPI request failed: No response received'')
   \<and> length (calls (snd (tool_handler whole_number_text http_down ''key'' (plain_args ''tv'') w0)))
       = 1"
proof -
  have n: "includeMetadata (plain_args ''tv'') \<noteq> Some True"
    by (simp add: plain_args_def)
  have f: "fst (searchProducts http_down ''key'' (query (plain_args ''tv''))
                  (searchOptions (plain_args ''tv''))
                  (log_line (LogInfo ''Processing Google Shopping search request'') w0))
           = Inl (ErrorObj ''SearchAPI request failed: No response received'')"
    by (simp add: searchProducts_def googleShoppingSSearch_def Let_def service_catch_def
        http_down_def)
  from collaborator_failure_reraised [of "plain_args ''tv''" http_down "''key''" w0 whole_number_text]
    n f
  show ?thesis by (simp add: w0_def)
qed

section \<open>Validation of the arguments\<close>

lemma schema_parse_query:
  "schema_parse raw = Some a \<Longrightarrow> map_of raw ''query'' = Some (JStr (query a))"
  by (cases "map_of raw ''query''" rule: z_string.cases)
     (auto simp: schema_parse_def Option.bind_eq_Some_conv)

lemma schema_parse_rejects:
  "\<not> (\<exists>s. map_of raw ''query'' = Some (JStr s)) \<Longrightarrow> schema_parse raw = None"
  by (cases "map_of raw ''query''" rule: z_string.cases) (auto simp: schema_parse_def)

lemma call_tool_calls:
  "schema_parse raw = Some a \<Longrightarrow>
   calls (snd (call_tool nts http apiKey raw w)) =
     calls w @ [\<lparr>url = baseUrl, engine = ''google_shopping'', api_key = apiKey,
                 params = searchParams (query a) (searchOptions a),
                 timeout = 30000, user_agent = ''MCP-SearchAPI-Server/1.0.0''\<rparr>]"
  using tool_handler_calls [of nts http apiKey a w]
  by (cases "tool_handler nts http apiKey a w")
     (auto simp: call_tool_def split: sum.splits)

text \<open>
  Claim C9, as amended. The schema requires the query argument to be present and to be a
  string: a call without one is rejected before anything is sent. It does not require the
  string to be non-empty: for every call the schema accepts, the search service is invoked
  once with the query as given, and a call whose only argument is a query, any string,
  is accepted.
\<close>

theorem query_validation:
  "(\<not> (\<exists>s. map_of raw ''query'' = Some (JStr s)) \<longrightarrow>
      call_tool nts http apiKey raw w = (InvalidParams, w))
   \<and> (\<forall>a. schema_parse raw = Some a \<longrightarrow>
      map_of raw ''query'' = Some (JStr (query a))
      \<and> fst (call_tool nts http apiKey raw w) \<noteq> InvalidParams
      \<and> length (calls (snd (call_tool nts http apiKey raw w))) = Suc (length (calls w))
      \<and> q (params (last (calls (snd (call_tool nts http apiKey raw w))))) = query a)
   \<and> (\<forall>s. schema_parse [(''query'', JStr s)]
             = Some \<lparr>query = s, location = None, country = None, language = None,
                     maxResults = None, includeMetadata = None\<rparr>)"
proof (intro conjI impI allI)
  assume "\<not> (\<exists>s. map_of raw ''query'' = Some (JStr s))"
  then show "call_tool nts http apiKey raw w = (InvalidParams, w)"
    by (simp add: call_tool_def schema_parse_rejects)
next
  fix a
  assume p: "schema_parse raw = Some a"
  show "map_of raw ''query'' = Some (JStr (query a))"
    by (rule schema_parse_query [OF p])
  show "fst (call_tool nts http apiKey raw w) \<noteq> InvalidParams"
    by (cases "tool_handler nts http apiKey a w")
       (auto simp: call_tool_def p split: sum.splits)
  show "length (calls (snd (call_tool nts http apiKey raw w))) = Suc (length (calls w))"
    by (simp add: call_tool_calls [OF p])
  show "q (params (last (calls (snd (call_tool nts http apiKey raw w))))) = query a"
    by (simp add: call_tool_calls [OF p] searchParams_def)
next
  fix s
  show "schema_parse [(''query'', JStr s)]
             = Some \<lparr>query = s, location = None, country = None, language = None,
                     maxResults = None, includeMetadata = None\<rparr>"
    by (simp add: schema_parse_def)
qed

theorem query_validation_witness:
  "call_tool whole_number_text http_down ''key'' [(''location'', JStr ''Paris'')] w0
     = (InvalidParams, w0)
   \<and> q (params (last (calls (snd (call_tool whole_number_text http_down ''key''
          [(''query'', JStr ''tv'')] w0))))) = ''tv''"
proof -
  have a: "\<not> (\<exists>s. map_of [(''location'', JStr ''Paris'')] ''query'' = Some (JStr s))"
    by simp
  have b: "schema_parse [(''query'', JStr ''tv'')] = Some (plain_args ''tv'')"
    by (simp add: schema_parse_def plain_args_def)
  from query_validation [of "[(''location'', JStr ''Paris'')]" whole_number_text http_down "''key''" w0] a
  have 1: "call_tool whole_number_text http_down ''key'' [(''location'', JStr ''Paris'')] w0
     = (InvalidParams, w0)"
    by blast
  from query_validation [of "[(''query'', JStr ''tv'')]" whole_number_text http_down "''key''" w0] b
  have 2: "q (params (last (calls (snd (call_tool whole_number_text http_down ''key''
          [(''query'', JStr ''tv'')] w0))))) = query (plain_args ''tv'')"
    by blast
  from 1 2 show ?thesis by (simp add: plain_args_def)
qed

text \<open>
  The claim C9 as stated fails on the code: a call whose query is the empty string
  passes validation, and the search service is invoked with the empty query.
\<close>

theorem empty_query_reaches_collaborator:
  "fst (call_tool whole_number_text http_down ''key'' [(''query'', JStr [])] w0) \<noteq> InvalidParams
   \<and> map (\<lambda>r. q (params r))
        (calls (snd (call_tool whole_number_text http_down ''key'' [(''query'', JStr [])] w0)))
     = [[]]"
  by (simp add: call_tool_def schema_parse_def tool_handler_def handler_try_def Let_def
      searchProducts_def googleShoppingSSearch_def service_catch_def log_line_def
      searchParams_def http_down_def w0_def)

section \<open>The result of a tool call without metadata\<close>

lemma join_sublist: "x \<in> set xs \<Longrightarrow> sublist x (join sep xs)"
proof (induction sep xs rule: join.induct)
  case (1 sep)
  then show ?case by simp
next
  case (2 sep y)
  then show ?case by simp
next
  case (3 sep y z zs)
  show ?case
  proof (cases "x = y")
    case True
    then show ?thesis by simp
  next
    case False
    with 3 have "sublist x (join sep (z # zs))" by simp
    also have "sublist \<dots> ((y @ sep) @ join sep (z # zs))"
      by (rule sublist_append_leftI)
    finally show ?thesis by simp
  qed
qed

lemma stringify_at_member:
  assumes "e \<in> set es"
  shows "sublist (stringify_at nts (ind @ gap) e) (stringify_at nts ind (JArr es))"
proof -
  have ne: "es \<noteq> []" using assms by auto
  have "sublist (stringify_at nts (ind @ gap) e)
          (join ('','' @ nl @ (ind @ gap)) (map (stringify_at nts (ind @ gap)) es))"
    using assms by (intro join_sublist) simp
  also have "sublist \<dots> ((''['' @ nl @ (ind @ gap))
          @ join ('','' @ nl @ (ind @ gap)) (map (stringify_at nts (ind @ gap)) es)
          @ (nl @ ind @ '']''))"
    by (rule sublist_appendI)
  finally show ?thesis using ne by simp
qed

lemma stringify_at_prop:
  assumes "(k, v) \<in> set ps"
  shows "sublist (quote k @ '': '' @ stringify_at nts (ind @ gap) v)
           (stringify_at nts ind (JObj ps))"
proof -
  have ne: "ps \<noteq> []" using assms by auto
  have "quote k @ '': '' @ stringify_at nts (ind @ gap) v
          \<in> set (map (\<lambda>(k, v). quote k @ '': '' @ stringify_at nts (ind @ gap) v) ps)"
    using assms by force
  then have "sublist (quote k @ '': '' @ stringify_at nts (ind @ gap) v)
          (join ('','' @ nl @ (ind @ gap))
             (map (\<lambda>(k, v). quote k @ '': '' @ stringify_at nts (ind @ gap) v) ps))"
    by (rule join_sublist)
  also have "sublist \<dots> ((''{'' @ nl @ (ind @ gap))
          @ join ('','' @ nl @ (ind @ gap))
             (map (\<lambda>(k, v). quote k @ '': '' @ stringify_at nts (ind @ gap) v) ps)
          @ (nl @ ind @ ''}''))"
    by (rule sublist_appendI)
  finally show ?thesis using ne by simp
qed

text \<open>A string property of an entry of the array is a line of the text.\<close>

lemma stringify_entry_prop:
  assumes "JObj ps \<in> set es" "(k, JStr s) \<in> set ps"
  shows "sublist (quote k @ '': '' @ quote s) (stringify nts (JArr es))"
proof -
  have "sublist (quote k @ '': '' @ quote s) (stringify_at nts ([] @ gap) (JObj ps))"
    using stringify_at_prop [OF assms(2), of nts "[] @ gap"] by simp
  also have "sublist \<dots> (stringify_at nts [] (JArr es))"
    by (rule stringify_at_member [OF assms(1)])
  finally show ?thesis by (simp add: stringify_def)
qed

lemma json_of_result_props:
  "\<exists>ps. json_of_result r = JObj ps
        \<and> (''title'', JStr (title r)) \<in> set ps
        \<and> (''seller'', JStr (seller r)) \<in> set ps
        \<and> (''price'', JStr (price r)) \<in> set ps
        \<and> (''product_link'', JStr (product_link r)) \<in> set ps"
  by (simp add: json_of_result_def)

lemma stringify_results_fields:
  assumes "r \<in> set rs"
  shows "sublist (quote ''title'' @ '': '' @ quote (title r))
           (stringify nts (JArr (map json_of_result rs)))
       \<and> sublist (quote ''seller'' @ '': '' @ quote (seller r))
           (stringify nts (JArr (map json_of_result rs)))
       \<and> sublist (quote ''price'' @ '': '' @ quote (price r))
           (stringify nts (JArr (map json_of_result rs)))
       \<and> sublist (quote ''product_link'' @ '': '' @ quote (product_link r))
           (stringify nts (JArr (map json_of_result rs)))"
proof -
  obtain ps where ps: "json_of_result r = JObj ps"
    "(''title'', JStr (title r)) \<in> set ps" "(''seller'', JStr (seller r)) \<in> set ps"
    "(''price'', JStr (price r)) \<in> set ps" "(''product_link'', JStr (product_link r)) \<in> set ps"
    using json_of_result_props [of r] by blast
  have m: "JObj ps \<in> set (map json_of_result rs)"
    using assms ps(1) by force
  show ?thesis
    using stringify_entry_prop [OF m ps(2)] stringify_entry_prop [OF m ps(3)]
      stringify_entry_prop [OF m ps(4)] stringify_entry_prop [OF m ps(5)]
    by simp
qed

lemma tool_handler_results:
  assumes "includeMetadata a \<noteq> Some True"
    and "http (length (calls w))
           \<lparr>url = baseUrl, engine = ''google_shopping'', api_key = apiKey,
            params = searchParams (query a) (searchOptions a),
            timeout = 30000, user_agent = ''MCP-SearchAPI-Server/1.0.0''\<rparr> = Inr response"
    and "get_prop (data response) ''shopping_results'' = Some (JArr es)"
  shows "fst (tool_handler nts http apiKey a w) = Inr [TextContent (stringify nts (JArr es))]"
proof -
  have nn: "data response \<noteq> JNull"
    using assms(3) by (cases "data response") simp_all
  have "fst (googleShoppingSSearch http apiKey (searchParams (query a) (searchOptions a))
          (log_line (LogInfo ''Processing Google Shopping search request'') w))
        = Inr (data response)"
    using assms(2) nn by (simp add: googleShoppingSSearch_def Let_def calls_log_line)
  then have "fst (searchProducts http apiKey (query a) (searchOptions a)
          (log_line (LogInfo ''Processing Google Shopping search request'') w))
        = Inr (JArr es)"
    using assms(3)
    by (cases "googleShoppingSSearch http apiKey (searchParams (query a) (searchOptions a))
          (log_line (LogInfo ''Processing Google Shopping search request'') w)")
       (simp add: searchProducts_def)
  then have "fst (handler_try nts http apiKey a w) = Inr [TextContent (stringify nts (JArr es))]"
    using assms(1)
    by (cases "searchProducts http apiKey (query a) (searchOptions a)
          (log_line (LogInfo ''Processing Google Shopping search request'') w)")
       (simp add: handler_try_def Let_def)
  then show ?thesis
    by (cases "handler_try nts http apiKey a w") (simp add: tool_handler_def)
qed

text \<open>
  Claim C2, as amended. For a tool call with \<^verbatim>\<open>includeMetadata\<close> unset or false, against
  a search API whose answer lists n product entries, the result is a single text content
  block: the JSON text of the array of exactly those n entries, pretty-printed with an
  indentation of two spaces, each entry an object on lines of its own. For each entry the
  text has the lines of its title, seller, price and product link, as the property name
  and the quoted value.
\<close>

theorem default_result_is_json_listing:
  assumes "includeMetadata a \<noteq> Some True"
    and "http (length (calls w))
           \<lparr>url = baseUrl, engine = ''google_shopping'', api_key = apiKey,
            params = searchParams (query a) (searchOptions a),
            timeout = 30000, user_agent = ''MCP-SearchAPI-Server/1.0.0''\<rparr> = Inr response"
    and "get_prop (data response) ''shopping_results'' = Some (JArr (map json_of_result rs))"
  shows "fst (tool_handler nts http apiKey a w)
           = Inr [TextContent (stringify nts (JArr (map json_of_result rs)))]
     \<and> (rs \<noteq> [] \<longrightarrow>
          stringify nts (JArr (map json_of_result rs))
            = ''['' @ nl @ gap
              @ join ('','' @ nl @ gap) (map (\<lambda>r. stringify_at nts gap (json_of_result r)) rs)
              @ nl @ '']'')
     \<and> (\<forall>r \<in> set rs.
          sublist (quote ''title'' @ '': '' @ quote (title r))
            (stringify nts (JArr (map json_of_result rs)))
          \<and> sublist (quote ''seller'' @ '': '' @ quote (seller r))
            (stringify nts (JArr (map json_of_result rs)))
          \<and> sublist (quote ''price'' @ '': '' @ quote (price r))
            (stringify nts (JArr (map json_of_result rs)))
          \<and> sublist (quote ''product_link'' @ '': '' @ quote (product_link r))
            (stringify nts (JArr (map json_of_result rs))))"
proof (intro conjI impI ballI)
  show "fst (tool_handler nts http apiKey a w)
           = Inr [TextContent (stringify nts (JArr (map json_of_result rs)))]"
    using assms by (rule tool_handler_results)
next
  assume "rs \<noteq> []"
  then show "stringify nts (JArr (map json_of_result rs))
            = ''['' @ nl @ gap
              @ join ('','' @ nl @ gap) (map (\<lambda>r. stringify_at nts gap (json_of_result r)) rs)
              @ nl @ '']''"
    by (simp add: stringify_def comp_def)
next
  fix r
  assume r: "r \<in> set rs"
  from stringify_results_fields [OF r, of nts]
  show "sublist (quote ''title'' @ '': '' @ quote (title r))
            (stringify nts (JArr (map json_of_result rs)))"
    and "sublist (quote ''seller'' @ '': '' @ quote (seller r))
            (stringify nts (JArr (map json_of_result rs)))"
    and "sublist (quote ''price'' @ '': '' @ quote (price r))
            (stringify nts (JArr (map json_of_result rs)))"
    and "sublist (quote ''product_link'' @ '': '' @ quote (product_link r))
            (stringify nts (JArr (map json_of_result rs)))"
    by simp_all
qed

theorem default_result_is_json_listing_witness:
  "fst (tool_handler whole_number_text
          (http_ok (JObj [(''shopping_results'', JArr (map json_of_result [headphones]))]))
          ''key'' ((plain_args ''wireless headphones'')\<lparr>maxResults := Some 5\<rparr>) w0)
     = Inr [TextContent (stringify whole_number_text (JArr (map json_of_result [headphones])))]
   \<and> sublist (quote ''title'' @ '': '' @ quote ''Wireless Headphones'')
        (stringify whole_number_text (JArr (map json_of_result [headphones])))
   \<and> sublist (quote ''product_link'' @ '': '' @ quote ''https://shop.example/p1'')
        (stringify whole_number_text (JArr (map json_of_result [headphones])))"
proof -
  let ?a = "(plain_args ''wireless headphones'')\<lparr>maxResults := Some 5\<rparr>"
  let ?v = "JObj [(''shopping_results'', JArr (map json_of_result [headphones]))]"
  have 1: "includeMetadata ?a \<noteq> Some True"
    by (simp add: plain_args_def)
  have 2: "http_ok ?v (length (calls w0))
           \<lparr>url = baseUrl, engine = ''google_shopping'', api_key = ''key'',
            params = searchParams (query ?a) (searchOptions ?a),
            timeout = 30000, user_agent = ''MCP-SearchAPI-Server/1.0.0''\<rparr>
          = Inr \<lparr>status = 200, data = ?v\<rparr>"
    by (simp add: http_ok_def)
  have 3: "get_prop (data \<lparr>status = 200, data = ?v\<rparr>) ''shopping_results''
          = Some (JArr (map json_of_result [headphones]))"
    by simp
  have 4: "title headphones = ''Wireless Headphones''"
    "product_link headphones = ''https://shop.example/p1''"
    by (simp_all add: headphones_def)
  note t = default_result_is_json_listing [of ?a "http_ok ?v" w0 "''key''"
      "\<lparr>status = 200, data = ?v\<rparr>" "[headphones]" whole_number_text, OF 1 2 3]
  from t have a: "fst (tool_handler whole_number_text (http_ok ?v) ''key'' ?a w0)
     = Inr [TextContent (stringify whole_number_text (JArr (map json_of_result [headphones])))]"
    by (rule conjunct1)
  from t have "\<forall>r \<in> set [headphones].
          sublist (quote ''title'' @ '': '' @ quote (title r))
            (stringify whole_number_text (JArr (map json_of_result [headphones])))
          \<and> sublist (quote ''seller'' @ '': '' @ quote (seller r))
            (stringify whole_number_text (JArr (map json_of_result [headphones])))
          \<and> sublist (quote ''price'' @ '': '' @ quote (price r))
            (stringify whole_number_text (JArr (map json_of_result [headphones])))
          \<and> sublist (quote ''product_link'' @ '': '' @ quote (product_link r))
            (stringify whole_number_text (JArr (map json_of_result [headphones])))"
    by (rule conjunct2 [OF conjunct2])
  then have "sublist (quote ''title'' @ '': '' @ quote (title headphones))
            (stringify whole_number_text (JArr (map json_of_result [headphones])))
     \<and> sublist (quote ''product_link'' @ '': '' @ quote (product_link headphones))
            (stringify whole_number_text (JArr (map json_of_result [headphones])))"
    by simp
  with a show ?thesis by (simp only: 4)
qed

text \<open>
  The claim C2 as stated fails on the code: the handler does not call
  \<^verbatim>\<open>formatShoppingResults\<close>. For one entry the text begins with the bracket and brace of
  the JSON array, while the formatted lines would begin "1. **Wireless Headphones**".
\<close>

theorem default_result_is_not_formatted_lines:
  "fst (tool_handler whole_number_text
          (http_ok (JObj [(''shopping_results'', JArr [json_of_result headphones])]))
          ''key'' ((plain_args ''wireless headphones'')\<lparr>maxResults := Some 5\<rparr>) w0)
     = Inr [TextContent (stringify whole_number_text (JArr [json_of_result headphones]))]
   \<and> take 5 (stringify whole_number_text (JArr [json_of_result headphones]))
       = ''['' @ nl @ ''  {''
   \<and> formatShoppingResults whole_number_text whole_number_text [headphones]
       = join nl [''1. **Wireless Headphones**'', ''   Seller: Acme'', ''   Price: $59'',
                  ''   Product Link: https://shop.example/p1'', ''   Offers: 3 available'']
   \<and> fst (tool_handler whole_number_text
          (http_ok (JObj [(''shopping_results'', JArr [json_of_result headphones])]))
          ''key'' ((plain_args ''wireless headphones'')\<lparr>maxResults := Some 5\<rparr>) w0)
     \<noteq> Inr [TextContent (formatShoppingResults whole_number_text whole_number_text [headphones])]"
proof -
  have h: "fst (tool_handler whole_number_text
          (http_ok (JObj [(''shopping_results'', JArr [json_of_result headphones])]))
          ''key'' ((plain_args ''wireless headphones'')\<lparr>maxResults := Some 5\<rparr>) w0)
     = Inr [TextContent (stringify whole_number_text (JArr [json_of_result headphones]))]"
    by (simp add: tool_handler_def handler_try_def Let_def searchProducts_def
        googleShoppingSSearch_def http_ok_def plain_args_def json_of_result_def)
  have s: "take 5 (stringify whole_number_text (JArr [json_of_result headphones]))
       = ''['' @ nl @ ''  {''"
    by (simp add: stringify_def json_of_result_def gap_def nl_def)
  have f: "formatShoppingResults whole_number_text whole_number_text [headphones]
       = join nl [''1. **Wireless Headphones**'', ''   Seller: Acme'', ''   Price: $59'',
                  ''   Product Link: https://shop.example/p1'', ''   Offers: 3 available'']"
    by (simp add: formatShoppingResults_def format_entry_def headphones_def show_nat.simps
        digit_char_def)
  have "take 1 (stringify whole_number_text (JArr [json_of_result headphones]))
      \<noteq> take 1 (formatShoppingResults whole_number_text whole_number_text [headphones])"
    by (simp add: f nl_def) (simp add: stringify_def json_of_result_def)
  then have "stringify whole_number_text (JArr [json_of_result headphones])
      \<noteq> formatShoppingResults whole_number_text whole_number_text [headphones]"
    by auto
  with h s f show ?thesis by simp
qed

end
